theory Spec2Isabelle
  imports Complex_Main "HOL-Library.Multiset"
begin

section \<open>Doubles\<close>

text \<open>
  A C++ \<^verbatim>\<open>double\<close> is modelled as an exact real number or one of the IEEE 754 special
  values: the two infinities and NaN. Arithmetic on finite values is exact (rounding and
  overflow are not modelled) and the special values follow IEEE 754: division of a nonzero
  value by zero is an infinity, \<open>0/0\<close>, \<open>0 * inf\<close> and \<open>inf - inf\<close> are NaN, every ordered
  comparison with NaN is false. Negative zero is identified with \<open>Fin 0\<close>, which stands for
  \<open>+0.0\<close>.
\<close>

datatype dbl = NaN | NInf | Fin real | PInf

fun dlt :: "dbl \<Rightarrow> dbl \<Rightarrow> bool" where
  "dlt NaN _ = False"
| "dlt _ NaN = False"
| "dlt (Fin x) (Fin y) = (x < y)"
| "dlt NInf NInf = False"
| "dlt NInf _ = True"
| "dlt PInf _ = False"
| "dlt (Fin x) PInf = True"
| "dlt (Fin x) NInf = False"

fun dle :: "dbl \<Rightarrow> dbl \<Rightarrow> bool" where
  "dle NaN _ = False"
| "dle _ NaN = False"
| "dle (Fin x) (Fin y) = (x \<le> y)"
| "dle NInf _ = True"
| "dle PInf PInf = True"
| "dle PInf _ = False"
| "dle (Fin x) PInf = True"
| "dle (Fin x) NInf = False"

fun dneg :: "dbl \<Rightarrow> dbl" where
  "dneg NaN = NaN"
| "dneg NInf = PInf"
| "dneg PInf = NInf"
| "dneg (Fin x) = Fin (- x)"

fun dadd :: "dbl \<Rightarrow> dbl \<Rightarrow> dbl" where
  "dadd NaN _ = NaN"
| "dadd _ NaN = NaN"
| "dadd (Fin x) (Fin y) = Fin (x + y)"
| "dadd PInf NInf = NaN"
| "dadd NInf PInf = NaN"
| "dadd PInf _ = PInf"
| "dadd NInf _ = NInf"
| "dadd (Fin x) PInf = PInf"
| "dadd (Fin x) NInf = NInf"

definition dsub :: "dbl \<Rightarrow> dbl \<Rightarrow> dbl" where
  "dsub a b = dadd a (dneg b)"

text \<open>An infinity times (or divided by) a finite value: the sign of the finite value
  decides; \<open>pos\<close> says whether the infinite operand is positive.\<close>

definition inf_times :: "bool \<Rightarrow> real \<Rightarrow> dbl" where
  "inf_times pos x = (if x = 0 then NaN else if (0 < x) = pos then PInf else NInf)"

fun dmul :: "dbl \<Rightarrow> dbl \<Rightarrow> dbl" where
  "dmul NaN _ = NaN"
| "dmul _ NaN = NaN"
| "dmul (Fin x) (Fin y) = Fin (x * y)"
| "dmul (Fin x) PInf = inf_times True x"
| "dmul (Fin x) NInf = inf_times False x"
| "dmul PInf (Fin y) = inf_times True y"
| "dmul NInf (Fin y) = inf_times False y"
| "dmul PInf PInf = PInf"
| "dmul NInf NInf = PInf"
| "dmul PInf NInf = NInf"
| "dmul NInf PInf = NInf"

fun ddiv :: "dbl \<Rightarrow> dbl \<Rightarrow> dbl" where
  "ddiv NaN _ = NaN"
| "ddiv _ NaN = NaN"
| "ddiv (Fin x) (Fin y) =
     (if y = 0 then (if x = 0 then NaN else if 0 < x then PInf else NInf) else Fin (x / y))"
| "ddiv (Fin x) PInf = Fin 0"
| "ddiv (Fin x) NInf = Fin 0"
| "ddiv PInf (Fin y) = (if 0 \<le> y then PInf else NInf)"
| "ddiv NInf (Fin y) = (if 0 \<le> y then NInf else PInf)"
| "ddiv PInf _ = NaN"
| "ddiv NInf _ = NaN"

fun dsqrt :: "dbl \<Rightarrow> dbl" where
  "dsqrt (Fin x) = (if x < 0 then NaN else Fin (sqrt x))"
| "dsqrt PInf = PInf"
| "dsqrt _ = NaN"

text \<open>\<^verbatim>\<open>log\<close> of \<^verbatim>\<open><cmath>\<close>: the natural logarithm.\<close>

fun dlog :: "dbl \<Rightarrow> dbl" where
  "dlog (Fin x) = (if x < 0 then NaN else if x = 0 then NInf else Fin (ln x))"
| "dlog PInf = PInf"
| "dlog _ = NaN"

text \<open>\<^verbatim>\<open>fmin\<close> and \<^verbatim>\<open>fmax\<close> return the other argument when one is NaN.\<close>

fun fmin :: "dbl \<Rightarrow> dbl \<Rightarrow> dbl" where
  "fmin NaN b = b"
| "fmin a NaN = a"
| "fmin a b = (if dlt b a then b else a)"

fun fmax :: "dbl \<Rightarrow> dbl \<Rightarrow> dbl" where
  "fmax NaN b = b"
| "fmax a NaN = a"
| "fmax a b = (if dlt a b then b else a)"

fun dacos :: "dbl \<Rightarrow> dbl" where
  "dacos (Fin x) = (if - 1 \<le> x \<and> x \<le> 1 then Fin (arccos x) else NaN)"
| "dacos _ = NaN"

fun datan2 :: "dbl \<Rightarrow> dbl \<Rightarrow> dbl" where
  "datan2 NaN _ = NaN"
| "datan2 _ NaN = NaN"
| "datan2 (Fin y) (Fin x) =
     (if 0 < x then Fin (arctan (y / x))
      else if x < 0 then (if 0 \<le> y then Fin (arctan (y / x) + pi) else Fin (arctan (y / x) - pi))
      else if 0 < y then Fin (pi / 2) else if y < 0 then Fin (- pi / 2) else Fin 0)"
| "datan2 (Fin y) PInf = Fin 0"
| "datan2 (Fin y) NInf = (if 0 \<le> y then Fin pi else Fin (- pi))"
| "datan2 PInf (Fin x) = Fin (pi / 2)"
| "datan2 NInf (Fin x) = Fin (- pi / 2)"
| "datan2 PInf PInf = Fin (pi / 4)"
| "datan2 PInf NInf = Fin (3 * pi / 4)"
| "datan2 NInf PInf = Fin (- pi / 4)"
| "datan2 NInf NInf = Fin (- 3 * pi / 4)"

definition infinity :: dbl where
  "infinity = PInf"

section \<open>vec3.h\<close>

datatype vec3 = Vec3 (vx: dbl) (vy: dbl) (vz: dbl)

text \<open>\<^verbatim>\<open>operator[]\<close>; the callers index with 0, 1 and 2 only.\<close>

fun vidx :: "vec3 \<Rightarrow> nat \<Rightarrow> dbl" where
  "vidx v 0 = vx v"
| "vidx v (Suc 0) = vy v"
| "vidx v _ = vz v"

definition vzero :: vec3 where
  "vzero = Vec3 (Fin 0) (Fin 0) (Fin 0)"

definition vneg :: "vec3 \<Rightarrow> vec3" where
  "vneg v = Vec3 (dneg (vx v)) (dneg (vy v)) (dneg (vz v))"

definition vadd :: "vec3 \<Rightarrow> vec3 \<Rightarrow> vec3" where
  "vadd u v = Vec3 (dadd (vx u) (vx v)) (dadd (vy u) (vy v)) (dadd (vz u) (vz v))"

definition vsub :: "vec3 \<Rightarrow> vec3 \<Rightarrow> vec3" where
  "vsub u v = Vec3 (dsub (vx u) (vx v)) (dsub (vy u) (vy v)) (dsub (vz u) (vz v))"

definition smul :: "dbl \<Rightarrow> vec3 \<Rightarrow> vec3" where
  "smul t v = Vec3 (dmul t (vx v)) (dmul t (vy v)) (dmul t (vz v))"

definition vdiv :: "vec3 \<Rightarrow> dbl \<Rightarrow> vec3" where
  "vdiv v t = smul (ddiv (Fin 1) t) v"

definition dot :: "vec3 \<Rightarrow> vec3 \<Rightarrow> dbl" where
  "dot u v = dadd (dadd (dmul (vx u) (vx v)) (dmul (vy u) (vy v))) (dmul (vz u) (vz v))"

definition length_squared :: "vec3 \<Rightarrow> dbl" where
  "length_squared v =
     dadd (dadd (dmul (vx v) (vx v)) (dmul (vy v) (vy v))) (dmul (vz v) (vz v))"

definition vlength :: "vec3 \<Rightarrow> dbl" where
  "vlength v = dsqrt (length_squared v)"

section \<open>ray.h\<close>

record ray =
  orig :: vec3
  dir :: vec3
  tm :: dbl

text \<open>\<^verbatim>\<open>ray::at\<close>.\<close>

definition ray_at :: "ray \<Rightarrow> dbl \<Rightarrow> vec3" where
  "ray_at r t = vadd (orig r) (smul t (dir r))"

section \<open>aabb.h\<close>

record aabb =
  minimum :: vec3
  maximum :: vec3

text \<open>The default constructor leaves both corners default-constructed: the zero vector.\<close>

definition aabb_default :: aabb where
  "aabb_default = \<lparr>minimum = vzero, maximum = vzero\<rparr>"

text \<open>
  One round of the loop of \<^verbatim>\<open>aabb::hit\<close> for the axis \<open>a\<close>, from the computed \<open>invD\<close> on:
  the new interval, and whether the loop goes on (\<open>False\<close>: \<^verbatim>\<open>return false\<close>).
\<close>

definition slab_axis :: "dbl \<Rightarrow> dbl \<Rightarrow> dbl \<Rightarrow> dbl \<Rightarrow> dbl \<times> dbl \<Rightarrow> bool \<times> dbl \<times> dbl" where
  "slab_axis invD mn mx o_a tt =
     (let t0 = dmul (dsub mn o_a) invD;
          t1 = dmul (dsub mx o_a) invD;
          (t0, t1) = (if dlt invD (Fin 0) then (t1, t0) else (t0, t1));
          t_min = (if dlt (fst tt) t0 then t0 else fst tt);
          t_max = (if dlt t1 (snd tt) then t1 else snd tt)
      in (\<not> dle t_max t_min, t_min, t_max))"

definition axis_step :: "aabb \<Rightarrow> ray \<Rightarrow> nat \<Rightarrow> dbl \<times> dbl \<Rightarrow> bool \<times> dbl \<times> dbl" where
  "axis_step b r a tt =
     slab_axis (ddiv (Fin 1) (vidx (dir r) a)) (vidx (minimum b) a) (vidx (maximum b) a)
       (vidx (orig r) a) tt"

definition aabb_hit :: "aabb \<Rightarrow> ray \<Rightarrow> dbl \<Rightarrow> dbl \<Rightarrow> bool" where
  "aabb_hit b r t_min t_max =
     (case axis_step b r 0 (t_min, t_max) of
        (ok0, tt0) \<Rightarrow>
          if \<not> ok0 then False
          else (case axis_step b r 1 tt0 of
            (ok1, tt1) \<Rightarrow>
              if \<not> ok1 then False
              else (case axis_step b r 2 tt1 of (ok2, tt2) \<Rightarrow> ok2)))"

definition surrounding_box :: "aabb \<Rightarrow> aabb \<Rightarrow> aabb" where
  "surrounding_box box0 box1 =
     (let small = Vec3 (fmin (vx (minimum box0)) (vx (minimum box1)))
                       (fmin (vy (minimum box0)) (vy (minimum box1)))
                       (fmin (vz (minimum box0)) (vz (minimum box1)));
          big = Vec3 (fmax (vx (maximum box0)) (vx (maximum box1)))
                     (fmax (vy (maximum box0)) (vy (maximum box1)))
                     (fmax (vz (maximum box0)) (vz (maximum box1)))
      in \<lparr>minimum = small, maximum = big\<rparr>)"

section \<open>utility.h: the process-wide generator\<close>

text \<open>
  \<^verbatim>\<open>random_double()\<close> draws from a static \<^verbatim>\<open>std::mt19937\<close>. The state of the generator is
  modelled as the sequence of the uniform draws still to come; a draw takes the head.
\<close>

type_synonym rng = "nat \<Rightarrow> real"

definition random_double :: "rng \<Rightarrow> dbl \<times> rng" where
  "random_double g = (Fin (g 0), (\<lambda>n. g (Suc n)))"

definition random_double_range :: "dbl \<Rightarrow> dbl \<Rightarrow> rng \<Rightarrow> dbl \<times> rng" where
  "random_double_range mn mx g =
     (case random_double g of (u, g') \<Rightarrow> (dadd mn (dmul (dsub mx mn) u), g'))"

text \<open>\<^verbatim>\<open>static_cast<int>\<close> truncates toward zero; of a value that is not finite it is
  undefined behaviour, here 0.\<close>

fun to_int :: "dbl \<Rightarrow> int" where
  "to_int (Fin x) = (if 0 \<le> x then \<lfloor>x\<rfloor> else \<lceil>x\<rceil>)"
| "to_int _ = 0"

definition random_int :: "int \<Rightarrow> int \<Rightarrow> rng \<Rightarrow> int \<times> rng" where
  "random_int mn mx g =
     (case random_double_range (Fin (of_int mn)) (Fin (of_int (mx + 1))) g of
        (u, g') \<Rightarrow> (to_int u, g'))"

section \<open>hittable.h\<close>

text \<open>A material is opaque to this code: only the identity of the shared object matters.\<close>

type_synonym material = nat

text \<open>
  Modelled from the spec: \<^verbatim>\<open>hittable.h\<close>, with \<^verbatim>\<open>hit_record\<close> and its
  \<^verbatim>\<open>set_face_normal\<close>, is not among the sources. The spec gives the record as point,
  normal, parameter t, u, v, frontFace and material, and the orientation as: the dot product
  of the ray direction and the outward normal negative means front face and the normal kept
  as it is, else the normal negated.
\<close>

text \<open>The fields \<^verbatim>\<open>p\<close>, \<^verbatim>\<open>t\<close>, \<^verbatim>\<open>u\<close> and \<^verbatim>\<open>v\<close> are \<open>rec_p\<close>, \<open>rec_t\<close>, \<open>rec_u\<close> and \<open>rec_v\<close>
  here.\<close>

record hit_record =
  rec_p :: vec3
  normal :: vec3
  mat_ptr :: material
  rec_t :: dbl
  rec_u :: dbl
  rec_v :: dbl
  front_face :: bool

definition set_face_normal :: "hit_record \<Rightarrow> ray \<Rightarrow> vec3 \<Rightarrow> hit_record" where
  "set_face_normal rc r outward_normal =
     (let ff = dlt (dot (dir r) outward_normal) (Fin 0)
      in rc\<lparr>front_face := ff, normal := (if ff then outward_normal else vneg outward_normal)\<rparr>)"

text \<open>The variants of \<^verbatim>\<open>hittable\<close> in the sources.\<close>

datatype hittable =
    Sphere vec3 dbl material
  | MovingSphere vec3 vec3 dbl dbl dbl material
  | ConstantMedium hittable material dbl
  | HittableList "hittable list"
  | BvhNode hittable hittable aabb

section \<open>sphere.h\<close>

definition get_sphere_uv :: "vec3 \<Rightarrow> dbl \<times> dbl" where
  "get_sphere_uv q =
     (let theta = dacos (dneg (vy q));
          phi = dadd (datan2 (dneg (vz q)) (vx q)) (Fin pi)
      in (ddiv phi (dmul (Fin 2) (Fin pi)), ddiv theta (Fin pi)))"

text \<open>
  The part that \<^verbatim>\<open>sphere::hit\<close> and \<^verbatim>\<open>moving_sphere::hit\<close> have in common, up to the
  acceptance of a root: \<open>None\<close> is \<^verbatim>\<open>return false\<close>.
\<close>

definition find_root :: "vec3 \<Rightarrow> dbl \<Rightarrow> ray \<Rightarrow> dbl \<Rightarrow> dbl \<Rightarrow> dbl option" where
  "find_root center radius r t_min t_max =
     (let oc = vsub (orig r) center;
          a = length_squared (dir r);
          half_b = dot oc (dir r);
          c = dsub (length_squared oc) (dmul radius radius);
          discriminant = dsub (dmul half_b half_b) (dmul a c)
      in if dlt discriminant (Fin 0) then None
         else let sqrtd = dsqrt discriminant;
                  rt = ddiv (dsub (dneg half_b) sqrtd) a
              in if dlt rt t_min \<or> dlt t_max rt then
                   (let rt = ddiv (dadd (dneg half_b) sqrtd) a
                    in if dlt rt t_min \<or> dlt t_max rt then None else Some rt)
                 else Some rt)"

definition sphere_hit ::
  "vec3 \<Rightarrow> dbl \<Rightarrow> material \<Rightarrow> ray \<Rightarrow> dbl \<Rightarrow> dbl \<Rightarrow> hit_record \<Rightarrow> bool \<times> hit_record" where
  "sphere_hit center radius m r t_min t_max rc =
     (case find_root center radius r t_min t_max of
        None \<Rightarrow> (False, rc)
      | Some rt \<Rightarrow>
          (let rc = rc\<lparr>rec_t := rt\<rparr>;
               rc = rc\<lparr>rec_p := ray_at r (rec_t rc)\<rparr>;
               outward_normal = vdiv (vsub (rec_p rc) center) radius;
               rc = set_face_normal rc r outward_normal;
               (u', v') = get_sphere_uv outward_normal;
               rc = rc\<lparr>rec_u := u', rec_v := v'\<rparr>;
               rc = rc\<lparr>mat_ptr := m\<rparr>
           in (True, rc)))"

definition sphere_bounding_box :: "vec3 \<Rightarrow> dbl \<Rightarrow> aabb" where
  "sphere_bounding_box center radius =
     \<lparr>minimum = vsub center (Vec3 radius radius radius),
      maximum = vadd center (Vec3 radius radius radius)\<rparr>"

section \<open>moving\_sphere.h\<close>

text \<open>\<^verbatim>\<open>moving_sphere::center\<close>.\<close>

definition center_at :: "vec3 \<Rightarrow> vec3 \<Rightarrow> dbl \<Rightarrow> dbl \<Rightarrow> dbl \<Rightarrow> vec3" where
  "center_at center0 center1 time0 time1 time =
     vadd center0 (smul (ddiv (dsub time time0) (dsub time1 time0)) (vsub center1 center0))"

definition moving_sphere_hit ::
  "vec3 \<Rightarrow> vec3 \<Rightarrow> dbl \<Rightarrow> dbl \<Rightarrow> dbl \<Rightarrow> material \<Rightarrow> ray \<Rightarrow> dbl \<Rightarrow> dbl \<Rightarrow> hit_record
     \<Rightarrow> bool \<times> hit_record" where
  "moving_sphere_hit center0 center1 time0 time1 radius m r t_min t_max rc =
     (let c = center_at center0 center1 time0 time1 (tm r) in
      case find_root c radius r t_min t_max of
        None \<Rightarrow> (False, rc)
      | Some rt \<Rightarrow>
          (let rc = rc\<lparr>rec_t := rt\<rparr>;
               rc = rc\<lparr>rec_p := ray_at r (rec_t rc)\<rparr>;
               outward_normal = vdiv (vsub (rec_p rc) c) radius;
               rc = set_face_normal rc r outward_normal;
               rc = rc\<lparr>mat_ptr := m\<rparr>
           in (True, rc)))"

definition moving_sphere_bounding_box ::
  "vec3 \<Rightarrow> vec3 \<Rightarrow> dbl \<Rightarrow> dbl \<Rightarrow> dbl \<Rightarrow> dbl \<Rightarrow> dbl \<Rightarrow> aabb" where
  "moving_sphere_bounding_box center0 center1 time0 time1 radius t0 t1 =
     (let box0 = sphere_bounding_box (center_at center0 center1 time0 time1 t0) radius;
          box1 = sphere_bounding_box (center_at center0 center1 time0 time1 t1) radius
      in surrounding_box box0 box1)"

section \<open>hittable\_list.h, bvh.h and constant\_medium.h: hit\<close>

text \<open>
  \<^verbatim>\<open>hit\<close> writes its result through the reference \<^verbatim>\<open>rec\<close> and draws from the process-wide
  generator: the model takes the record and the generator and returns them with the result.
  A default-constructed \<^verbatim>\<open>hit_record\<close> (the locals \<^verbatim>\<open>temp_rec\<close>, \<^verbatim>\<open>rec1\<close>, \<^verbatim>\<open>rec2\<close>) has
  indeterminate scalar fields; \<open>dflt\<close> stands for it.

  In \<^verbatim>\<open>constant_medium::hit\<close>, \<^verbatim>\<open>enableDebug\<close> is false, so \<^verbatim>\<open>debugging\<close> is false without a
  draw (\<^verbatim>\<open>&&\<close> does not evaluate its right side) and nothing is printed.
\<close>

text \<open>
  \<^verbatim>\<open>constant_medium::hit\<close> after its two queries of the boundary, from \<^verbatim>\<open>rec1.t\<close> and
  \<^verbatim>\<open>rec2.t\<close> on: the clipping to the interval and the sampled free path.
\<close>

definition medium_scatter ::
  "material \<Rightarrow> dbl \<Rightarrow> ray \<Rightarrow> dbl \<Rightarrow> dbl \<Rightarrow> hit_record \<Rightarrow> dbl \<Rightarrow> dbl \<Rightarrow> rng
     \<Rightarrow> bool \<times> hit_record \<times> rng" where
  "medium_scatter phase_function neg_inv_density r t_min t_max rc rec1_t rec2_t g =
     (let t1 = (if dlt rec1_t t_min then t_min else rec1_t);
          t2 = (if dlt t_max rec2_t then t_max else rec2_t)
      in if dle t2 t1 then (False, rc, g)
         else
           let t1 = (if dlt t1 (Fin 0) then Fin 0 else t1);
               ray_length = vlength (dir r);
               distance_inside_boundary = dmul (dsub t2 t1) ray_length;
               (rnd, g') = random_double g;
               hit_distance = dmul neg_inv_density (dlog rnd)
           in if dlt distance_inside_boundary hit_distance then (False, rc, g')
              else
                let rc = rc\<lparr>rec_t := dadd t1 (ddiv hit_distance ray_length)\<rparr>;
                    rc = rc\<lparr>rec_p := ray_at r (rec_t rc)\<rparr>;
                    rc = rc\<lparr>normal := Vec3 (Fin 1) (Fin 0) (Fin 0)\<rparr>;
                    rc = rc\<lparr>front_face := True\<rparr>;
                    rc = rc\<lparr>mat_ptr := phase_function\<rparr>
                in (True, rc, g'))"

fun hit :: "hit_record \<Rightarrow> hittable \<Rightarrow> ray \<Rightarrow> dbl \<Rightarrow> dbl \<Rightarrow> hit_record \<Rightarrow> rng
              \<Rightarrow> bool \<times> hit_record \<times> rng"
and hit_objects :: "hit_record \<Rightarrow> hittable list \<Rightarrow> ray \<Rightarrow> dbl \<Rightarrow> hit_record \<Rightarrow> bool \<Rightarrow> dbl
              \<Rightarrow> hit_record \<Rightarrow> rng \<Rightarrow> bool \<times> hit_record \<times> rng" where
  "hit dflt (Sphere center radius m) r t_min t_max rc g =
     (case sphere_hit center radius m r t_min t_max rc of (b, rc') \<Rightarrow> (b, rc', g))"
| "hit dflt (MovingSphere center0 center1 time0 time1 radius m) r t_min t_max rc g =
     (case moving_sphere_hit center0 center1 time0 time1 radius m r t_min t_max rc of
        (b, rc') \<Rightarrow> (b, rc', g))"
| "hit dflt (HittableList objects) r t_min t_max rc g =
     hit_objects dflt objects r t_min dflt False t_max rc g"
| "hit dflt (BvhNode left right box) r t_min t_max rc g =
     (if \<not> aabb_hit box r t_min t_max then (False, rc, g)
      else case hit dflt left r t_min t_max rc g of
        (hit_left, rc1, g1) \<Rightarrow>
          (case hit dflt right r t_min (if hit_left then rec_t rc1 else t_max) rc1 g1 of
             (hit_right, rc2, g2) \<Rightarrow> (hit_left \<or> hit_right, rc2, g2)))"
| "hit dflt (ConstantMedium boundary phase_function neg_inv_density) r t_min t_max rc g =
     (case hit dflt boundary r (dneg infinity) infinity dflt g of
        (b1, rec1, g1) \<Rightarrow>
          if \<not> b1 then (False, rc, g1)
          else (case hit dflt boundary r (dadd (rec_t rec1) (Fin (1 / 10000))) infinity dflt g1 of
            (b2, rec2, g2) \<Rightarrow>
              if \<not> b2 then (False, rc, g2)
              else medium_scatter phase_function neg_inv_density r t_min t_max rc
                     (rec_t rec1) (rec_t rec2) g2))"
| "hit_objects dflt [] r t_min temp_rec hit_anything closest_so_far rc g =
     (hit_anything, rc, g)"
| "hit_objects dflt (object # objects) r t_min temp_rec hit_anything closest_so_far rc g =
     (case hit dflt object r t_min closest_so_far temp_rec g of
        (b, temp_rec', g') \<Rightarrow>
          if b then hit_objects dflt objects r t_min temp_rec' True (rec_t temp_rec') temp_rec' g'
          else hit_objects dflt objects r t_min temp_rec' hit_anything closest_so_far rc g')"

text \<open>The constructors of \<^verbatim>\<open>constant_medium\<close> store \<^verbatim>\<open>-1 / d\<close>; the isotropic material they
  make is given by its identity.\<close>

definition constant_medium :: "hittable \<Rightarrow> dbl \<Rightarrow> material \<Rightarrow> hittable" where
  "constant_medium b d phase = ConstantMedium b phase (ddiv (Fin (- 1)) d)"

section \<open>bounding\_box\<close>

text \<open>\<^verbatim>\<open>bounding_box\<close> writes through the reference \<^verbatim>\<open>output_box\<close>: the model takes the box
  and returns it with the result.\<close>

fun bounding_box :: "hittable \<Rightarrow> dbl \<Rightarrow> dbl \<Rightarrow> aabb \<Rightarrow> bool \<times> aabb"
and bounding_box_objects :: "hittable list \<Rightarrow> dbl \<Rightarrow> dbl \<Rightarrow> aabb \<Rightarrow> bool \<Rightarrow> aabb \<Rightarrow> bool \<times> aabb"
where
  "bounding_box (Sphere center radius m) time0 time1 output_box =
     (True, sphere_bounding_box center radius)"
| "bounding_box (MovingSphere center0 center1 t0 t1 radius m) time0 time1 output_box =
     (True, moving_sphere_bounding_box center0 center1 t0 t1 radius time0 time1)"
| "bounding_box (ConstantMedium boundary phase_function neg_inv_density) time0 time1 output_box =
     bounding_box boundary time0 time1 output_box"
| "bounding_box (BvhNode left right box) time0 time1 output_box = (True, box)"
| "bounding_box (HittableList objects) time0 time1 output_box =
     (if objects = [] then (False, output_box)
      else bounding_box_objects objects time0 time1 aabb_default True output_box)"
| "bounding_box_objects [] time0 time1 temp_box first_box output_box = (True, output_box)"
| "bounding_box_objects (object # objects) time0 time1 temp_box first_box output_box =
     (case bounding_box object time0 time1 temp_box of
        (b, temp_box') \<Rightarrow>
          if \<not> b then (False, output_box)
          else bounding_box_objects objects time0 time1 temp_box' False
                 (if first_box then temp_box' else surrounding_box output_box temp_box'))"

section \<open>bvh.h: construction\<close>

text \<open>What is written to \<^verbatim>\<open>std::cerr\<close> is a list of lines.\<close>

definition no_box_message :: string where
  "no_box_message = ''No bounding box in bvh_node constructor.''"

text \<open>
  \<^verbatim>\<open>box_compare\<close>: the result and the lines it writes. \<^verbatim>\<open>||\<close> does not ask \<^verbatim>\<open>b\<close> for its box
  when \<^verbatim>\<open>a\<close> has none, and \<^verbatim>\<open>box_b\<close> stays default-constructed then.
\<close>

definition box_compare :: "hittable \<Rightarrow> hittable \<Rightarrow> nat \<Rightarrow> bool \<times> string list" where
  "box_compare a b axis =
     (case bounding_box a (Fin 0) (Fin 0) aabb_default of
        (ok_a, box_a) \<Rightarrow>
          (case (if ok_a then bounding_box b (Fin 0) (Fin 0) aabb_default
                 else (False, aabb_default)) of
             (ok_b, box_b) \<Rightarrow>
               (dlt (vidx (minimum box_a) axis) (vidx (minimum box_b) axis),
                if \<not> ok_a \<or> \<not> ok_b then [no_box_message] else [])))"

definition box_x_compare :: "hittable \<Rightarrow> hittable \<Rightarrow> bool \<times> string list" where
  "box_x_compare a b = box_compare a b 0"

definition box_y_compare :: "hittable \<Rightarrow> hittable \<Rightarrow> bool \<times> string list" where
  "box_y_compare a b = box_compare a b 1"

definition box_z_compare :: "hittable \<Rightarrow> hittable \<Rightarrow> bool \<times> string list" where
  "box_z_compare a b = box_compare a b 2"

text \<open>
  \<^verbatim>\<open>std::sort\<close> is not part of the sources: it is a parameter \<open>srt\<close>, which takes the
  comparator and the elements of the range and returns them in the new order, together with
  the pairs it called the comparator on, in the order of the calls. The comparator writes
  its lines at each of these calls.
\<close>

type_synonym sorter =
  "(hittable \<Rightarrow> hittable \<Rightarrow> bool) \<Rightarrow> hittable list
     \<Rightarrow> hittable list \<times> (hittable \<times> hittable) list"

definition sort_range ::
  "sorter \<Rightarrow> (hittable \<Rightarrow> hittable \<Rightarrow> bool \<times> string list) \<Rightarrow> hittable list \<Rightarrow> nat \<Rightarrow> nat
     \<Rightarrow> hittable list \<times> string list" where
  "sort_range srt comparator objects start end_idx =
     (case srt (\<lambda>a b. fst (comparator a b)) (take (end_idx - start) (drop start objects)) of
        (in_order, calls) \<Rightarrow>
          (take start objects @ in_order @ drop end_idx objects,
           concat (map (\<lambda>(a, b). snd (comparator a b)) calls)))"

text \<open>The end of the constructor: the boxes of the two children and the box of the node.
  \<^verbatim>\<open>||\<close> does not ask the right child when the left one has no box.\<close>

definition bvh_node_of ::
  "hittable \<Rightarrow> hittable \<Rightarrow> dbl \<Rightarrow> dbl \<Rightarrow> string list \<Rightarrow> hittable \<times> string list" where
  "bvh_node_of left right time0 time1 err =
     (case bounding_box left time0 time1 aabb_default of
        (ok_left, box_left) \<Rightarrow>
          (case (if ok_left then bounding_box right time0 time1 aabb_default
                 else (False, aabb_default)) of
             (ok_right, box_right) \<Rightarrow>
               (BvhNode left right (surrounding_box box_left box_right),
                if \<not> ok_left \<or> \<not> ok_right then err @ [no_box_message] else err)))"

text \<open>
  The constructor \<^verbatim>\<open>bvh_node(src_objects, start, end, time0, time1)\<close>. It recurses without
  a bound that the code states, so the model counts the depth still allowed: \<open>None\<close> is no
  node, when the depth is used up or when the range is not one of the vector (undefined
  behaviour in C++). The generator and the lines written so far are passed through.
\<close>

fun bvh_node_ctor ::
  "nat \<Rightarrow> sorter \<Rightarrow> hittable list \<Rightarrow> nat \<Rightarrow> nat \<Rightarrow> dbl \<Rightarrow> dbl \<Rightarrow> rng \<Rightarrow> string list
     \<Rightarrow> (hittable \<times> rng \<times> string list) option" where
  "bvh_node_ctor 0 srt src_objects start end_idx time0 time1 g err = None"
| "bvh_node_ctor (Suc depth) srt src_objects start end_idx time0 time1 g err =
     (if end_idx < start \<or> length src_objects < end_idx then None
      else
        let objects = src_objects;
            (axis, g) = random_int 0 2 g;
            comparator = (if axis = 0 then box_x_compare
                          else if axis = 1 then box_y_compare
                          else box_z_compare);
            object_span = end_idx - start
        in if object_span = 1 then
             Some (case bvh_node_of (objects ! start) (objects ! start) time0 time1 err of
                     (node, err) \<Rightarrow> (node, g, err))
           else if object_span = 2 then
             (case comparator (objects ! start) (objects ! (start + 1)) of
                (is_less, lines) \<Rightarrow>
                  Some (case (if is_less
                              then bvh_node_of (objects ! start) (objects ! (start + 1))
                                     time0 time1 (err @ lines)
                              else bvh_node_of (objects ! (start + 1)) (objects ! start)
                                     time0 time1 (err @ lines)) of
                          (node, err) \<Rightarrow> (node, g, err)))
           else
             let (objects, lines) = sort_range srt comparator objects start end_idx;
                 err = err @ lines;
                 mid = start + object_span div 2
             in (case bvh_node_ctor depth srt objects start mid time0 time1 g err of
                   None \<Rightarrow> None
                 | Some (left, g, err) \<Rightarrow>
                     (case bvh_node_ctor depth srt objects mid end_idx time0 time1 g err of
                        None \<Rightarrow> None
                      | Some (right, g, err) \<Rightarrow>
                          Some (case bvh_node_of left right time0 time1 err of
                                  (node, err) \<Rightarrow> (node, g, err)))))"

text \<open>The constructor \<^verbatim>\<open>bvh_node(list, time0, time1)\<close>.\<close>

definition bvh_node :: "nat \<Rightarrow> sorter \<Rightarrow> hittable list \<Rightarrow> dbl \<Rightarrow> dbl \<Rightarrow> rng \<Rightarrow> string list
     \<Rightarrow> (hittable \<times> rng \<times> string list) option" where
  "bvh_node depth srt objects time0 time1 g err =
     bvh_node_ctor depth srt objects 0 (length objects) time0 time1 g err"

text \<open>A sort to run the constructor with: insertion sort by the comparator, with the
  calls of the comparator it makes.\<close>

fun insert_by :: "('a \<Rightarrow> 'a \<Rightarrow> bool) \<Rightarrow> 'a \<Rightarrow> 'a list \<Rightarrow> 'a list \<times> ('a \<times> 'a) list" where
  "insert_by cmp x [] = ([x], [])"
| "insert_by cmp x (y # ys) =
     (if cmp y x then (y # fst (insert_by cmp x ys), (y, x) # snd (insert_by cmp x ys))
      else (x # y # ys, [(y, x)]))"

fun sort_by :: "('a \<Rightarrow> 'a \<Rightarrow> bool) \<Rightarrow> 'a list \<Rightarrow> 'a list \<times> ('a \<times> 'a) list" where
  "sort_by cmp [] = ([], [])"
| "sort_by cmp (x # xs) =
     (fst (insert_by cmp x (fst (sort_by cmp xs))),
      snd (sort_by cmp xs) @ snd (insert_by cmp x (fst (sort_by cmp xs))))"

section \<open>Definitions for the properties\<close>

subsection \<open>Concrete inputs\<close>

definition rec0 :: hit_record where
  "rec0 = \<lparr>rec_p = vzero, normal = vzero, mat_ptr = 0, rec_t = Fin 0, rec_u = Fin 0,
            rec_v = Fin 0, front_face = False\<rparr>"

text \<open>A generator whose draws are all one half.\<close>

definition rng_half :: rng where
  "rng_half = (\<lambda>n. 1 / 2)"

text \<open>The ray of the scenarios: from \<open>(0,0,-5)\<close> toward \<open>(0,0,1)\<close>; and the unit sphere at the
  origin.\<close>

definition scenario_ray :: ray where
  "scenario_ray =
     \<lparr>orig = Vec3 (Fin 0) (Fin 0) (Fin (- 5)), dir = Vec3 (Fin 0) (Fin 0) (Fin 1), tm = Fin 0\<rparr>"

definition unit_sphere :: hittable where
  "unit_sphere = Sphere vzero (Fin 1) 0"

subsection \<open>The quadratic of the sphere, in the words of the specification\<close>

text \<open>\<open>a = |D|^2\<close>, \<open>halfB = D . (O - C)\<close>, \<open>c = |O - C|^2 - r^2\<close>,
  \<open>discriminant = halfB^2 - a c\<close>, and the two roots.\<close>

definition quad_a :: "ray \<Rightarrow> dbl" where
  "quad_a r = length_squared (dir r)"

definition quad_half_b :: "vec3 \<Rightarrow> ray \<Rightarrow> dbl" where
  "quad_half_b center r = dot (vsub (orig r) center) (dir r)"

definition quad_c :: "vec3 \<Rightarrow> dbl \<Rightarrow> ray \<Rightarrow> dbl" where
  "quad_c center radius r =
     dsub (length_squared (vsub (orig r) center)) (dmul radius radius)"

definition discriminant_of :: "vec3 \<Rightarrow> dbl \<Rightarrow> ray \<Rightarrow> dbl" where
  "discriminant_of center radius r =
     dsub (dmul (quad_half_b center r) (quad_half_b center r))
          (dmul (quad_a r) (quad_c center radius r))"

definition smaller_root :: "vec3 \<Rightarrow> dbl \<Rightarrow> ray \<Rightarrow> dbl" where
  "smaller_root center radius r =
     ddiv (dsub (dneg (quad_half_b center r)) (dsqrt (discriminant_of center radius r)))
       (quad_a r)"

definition larger_root :: "vec3 \<Rightarrow> dbl \<Rightarrow> ray \<Rightarrow> dbl" where
  "larger_root center radius r =
     ddiv (dadd (dneg (quad_half_b center r)) (dsqrt (discriminant_of center radius r)))
       (quad_a r)"

text \<open>A value lies in \<open>[t_min, t_max]\<close>; a value fails the range test of the code.\<close>

definition in_range :: "dbl \<Rightarrow> dbl \<Rightarrow> dbl \<Rightarrow> bool" where
  "in_range t_min t_max x = (dle t_min x \<and> dle x t_max)"

definition out_of_range :: "dbl \<Rightarrow> dbl \<Rightarrow> dbl \<Rightarrow> bool" where
  "out_of_range t_min t_max x = (dlt x t_min \<or> dlt t_max x)"

subsection \<open>Bounding boxes\<close>

text \<open>Whether a hittable reports a box, and the box it reports.\<close>

definition has_box :: "hittable \<Rightarrow> dbl \<Rightarrow> dbl \<Rightarrow> bool" where
  "has_box h time0 time1 = fst (bounding_box h time0 time1 aabb_default)"

definition box_of :: "hittable \<Rightarrow> dbl \<Rightarrow> dbl \<Rightarrow> aabb" where
  "box_of h time0 time1 = snd (bounding_box h time0 time1 aabb_default)"

text \<open>The fold of \<^verbatim>\<open>surrounding_box\<close> over a list of boxes, from the first one.\<close>

fun union_boxes :: "aabb list \<Rightarrow> aabb" where
  "union_boxes [] = aabb_default"
| "union_boxes (b # bs) = foldl surrounding_box b bs"

text \<open>The box the loop of \<^verbatim>\<open>hittable_list::bounding_box\<close> ends with, from its state.\<close>

definition loop_box :: "bool \<Rightarrow> aabb \<Rightarrow> aabb list \<Rightarrow> aabb" where
  "loop_box first_box output_box bs =
     (if first_box then (case bs of [] \<Rightarrow> output_box | b # bs' \<Rightarrow> foldl surrounding_box b bs')
      else foldl surrounding_box output_box bs)"

definition not_nan :: "dbl \<Rightarrow> bool" where
  "not_nan a = (a \<noteq> NaN)"

definition vec_not_nan :: "vec3 \<Rightarrow> bool" where
  "vec_not_nan q = (not_nan (vx q) \<and> not_nan (vy q) \<and> not_nan (vz q))"

definition box_not_nan :: "aabb \<Rightarrow> bool" where
  "box_not_nan b = (vec_not_nan (minimum b) \<and> vec_not_nan (maximum b))"

text \<open>Componentwise order, and a box containing a box.\<close>

definition vle :: "vec3 \<Rightarrow> vec3 \<Rightarrow> bool" where
  "vle a b = (dle (vx a) (vx b) \<and> dle (vy a) (vy b) \<and> dle (vz a) (vz b))"

definition box_contains :: "aabb \<Rightarrow> aabb \<Rightarrow> bool" where
  "box_contains outer inner =
     (vle (minimum outer) (minimum inner) \<and> vle (maximum inner) (maximum outer))"

text \<open>A moving sphere whose two times are equal: its centre at any time is \<open>0/0\<close> or
  \<open>inf * 0\<close> in two of the coordinates.\<close>

definition stuck_ball :: hittable where
  "stuck_ball = MovingSphere vzero (Vec3 (Fin 0) (Fin 1) (Fin 0)) (Fin 0) (Fin 0) (Fin 1) 0"

definition sphere_at_3 :: hittable where
  "sphere_at_3 = Sphere (Vec3 (Fin 3) (Fin 0) (Fin 0)) (Fin 1) 0"

subsection \<open>The slab test, in the words of the specification\<close>

text \<open>
  For an axis: \<open>t0\<close> and \<open>t1\<close> from the two slab planes, swapped when \<open>invD < 0\<close>; then
  \<open>t_min := max(t_min, t0)\<close> and \<open>t_max := min(t_max, t1)\<close>; an axis yields an empty interval
  when \<open>t_max <= t_min\<close>. The hit is that no axis yields one, all three axes tightened in
  turn.
\<close>

definition dmax :: "dbl \<Rightarrow> dbl \<Rightarrow> dbl" where
  "dmax a b = (if dlt a b then b else a)"

definition dmin :: "dbl \<Rightarrow> dbl \<Rightarrow> dbl" where
  "dmin a b = (if dlt b a then b else a)"

definition slab_planes :: "aabb \<Rightarrow> ray \<Rightarrow> nat \<Rightarrow> dbl \<times> dbl" where
  "slab_planes b r a =
     (let invD = ddiv (Fin 1) (vidx (dir r) a);
          t0 = dmul (dsub (vidx (minimum b) a) (vidx (orig r) a)) invD;
          t1 = dmul (dsub (vidx (maximum b) a) (vidx (orig r) a)) invD
      in if dlt invD (Fin 0) then (t1, t0) else (t0, t1))"

definition tighten :: "aabb \<Rightarrow> ray \<Rightarrow> nat \<Rightarrow> dbl \<times> dbl \<Rightarrow> dbl \<times> dbl" where
  "tighten b r a tt =
     (dmax (fst tt) (fst (slab_planes b r a)), dmin (snd tt) (snd (slab_planes b r a)))"

definition is_empty :: "dbl \<times> dbl \<Rightarrow> bool" where
  "is_empty tt = dle (snd tt) (fst tt)"

definition no_axis_empty :: "aabb \<Rightarrow> ray \<Rightarrow> dbl \<Rightarrow> dbl \<Rightarrow> bool" where
  "no_axis_empty b r t_min t_max =
     (let tt0 = tighten b r 0 (t_min, t_max);
          tt1 = tighten b r 1 tt0;
          tt2 = tighten b r 2 tt1
      in \<not> is_empty tt0 \<and> \<not> is_empty tt1 \<and> \<not> is_empty tt2)"

definition unit_box :: aabb where
  "unit_box = \<lparr>minimum = Vec3 (Fin (- 1)) (Fin (- 1)) (Fin (- 1)), maximum = Vec3 (Fin 1) (Fin 1) (Fin 1)\<rparr>"

subsection \<open>Construction of the hierarchy\<close>


fun erase_boxes :: "hittable \<Rightarrow> hittable" where
  "erase_boxes (BvhNode left right box) = BvhNode (erase_boxes left) (erase_boxes right) aabb_default"
| "erase_boxes h = h"

definition built_tree :: "(hittable \<times> rng \<times> string list) option \<Rightarrow> (hittable \<times> rng) option" where
  "built_tree res = map_option (\<lambda>(node, g, err). (erase_boxes node, g)) res"

definition range_of :: "'a list \<Rightarrow> nat \<Rightarrow> nat \<Rightarrow> 'a list" where
  "range_of xs start end_idx = take (end_idx - start) (drop start xs)"

text \<open>
  The index of the coordinate that the comparator chosen for \<open>axis\<close> reads. The comparison
  C10 describes: of the minimum corners, on one coordinate, of the boxes that the two
  hittables report for the times \<open>(0, 0)\<close>; \<^verbatim>\<open>||\<close> does not ask the second one when the first
  reports no box, and its box is default-constructed then.
\<close>

definition axis_of :: "int \<Rightarrow> nat" where
  "axis_of axis = (if axis = 0 then 0 else if axis = 1 then 1 else 2)"

definition corner_less :: "nat \<Rightarrow> hittable \<Rightarrow> hittable \<Rightarrow> bool" where
  "corner_less axis a b =
     dlt (vidx (minimum (box_of a (Fin 0) (Fin 0))) axis)
         (vidx (minimum (if has_box a (Fin 0) (Fin 0) then box_of b (Fin 0) (Fin 0)
                         else aabb_default)) axis)"

text \<open>
  A moving sphere that is at the origin at time 0 and at \<open>(10,0,0)\<close> at time 1, a sphere
  at \<open>(5,0,0)\<close>, and a generator whose draws are all 0. A list that reports no box after
  its first member has written one: the unit sphere, then an empty list.
\<close>

definition runner :: hittable where
  "runner = MovingSphere vzero (Vec3 (Fin 10) (Fin 0) (Fin 0)) (Fin 0) (Fin 1) (Fin 1) 0"

definition post :: hittable where
  "post = Sphere (Vec3 (Fin 5) (Fin 0) (Fin 0)) (Fin 1) 0"

definition rng_zero :: rng where
  "rng_zero = (\<lambda>n. 0)"


subsection \<open>Repeated queries\<close>

text \<open>
  A scene without a \<^verbatim>\<open>constant_medium\<close>, and one without a \<^verbatim>\<open>moving_sphere\<close>. Two records that
  agree in every field but \<open>u\<close> and \<open>v\<close>. Two results of \<^verbatim>\<open>hit\<close>, from the records \<open>rc\<close> and
  \<open>rc'\<close>, that echo each other up to a relation \<open>R\<close> of records: the same outcome, the
  generator \<open>g\<close> untouched, on a hit records related by \<open>R\<close>, on a miss each record as it was.
  Two successive identical queries (the second runs on the generator as the first left it,
  and every \<^verbatim>\<open>hit_record\<close> that \<^verbatim>\<open>hit\<close> declares without initialising it may hold something else
  in the second query) whose results agree up to \<open>R\<close>. A hittable whose \<^verbatim>\<open>hit\<close> neither reads
  nor advances the generator. Then a medium of density 1 in a sphere of radius 10, a ray
  through it, a generator whose first two draws are \<open>1/2\<close> and \<open>1/4\<close>, and a record other than
  \<open>rec0\<close>.
\<close>

fun no_medium :: "hittable \<Rightarrow> bool" where
  "no_medium (Sphere center radius m) = True"
| "no_medium (MovingSphere center0 center1 time0 time1 radius m) = True"
| "no_medium (ConstantMedium boundary phase_function neg_inv_density) = False"
| "no_medium (HittableList objects) = (\<forall>x\<in>set objects. no_medium x)"
| "no_medium (BvhNode left right box) = (no_medium left \<and> no_medium right)"

fun no_moving_sphere :: "hittable \<Rightarrow> bool" where
  "no_moving_sphere (Sphere center radius m) = True"
| "no_moving_sphere (MovingSphere center0 center1 time0 time1 radius m) = False"
| "no_moving_sphere (ConstantMedium boundary phase_function neg_inv_density) =
     no_moving_sphere boundary"
| "no_moving_sphere (HittableList objects) = (\<forall>x\<in>set objects. no_moving_sphere x)"
| "no_moving_sphere (BvhNode left right box) = (no_moving_sphere left \<and> no_moving_sphere right)"

definition same_but_uv :: "hit_record \<Rightarrow> hit_record \<Rightarrow> bool" where
  "same_but_uv a b =
     (rec_p a = rec_p b \<and> normal a = normal b \<and> mat_ptr a = mat_ptr b \<and> rec_t a = rec_t b
      \<and> front_face a = front_face b)"

definition echo ::
  "(hit_record \<Rightarrow> hit_record \<Rightarrow> bool) \<Rightarrow> hit_record \<Rightarrow> hit_record \<Rightarrow> rng
     \<Rightarrow> bool \<times> hit_record \<times> rng \<Rightarrow> bool \<times> hit_record \<times> rng \<Rightarrow> bool" where
  "echo R rc rc' g res res' =
     (fst res = fst res' \<and> snd (snd res) = g \<and> snd (snd res') = g
      \<and> (if fst res then R (fst (snd res)) (fst (snd res'))
          else fst (snd res) = rc \<and> fst (snd res') = rc'))"

definition repeatable ::
  "(hit_record \<Rightarrow> hit_record \<Rightarrow> bool) \<Rightarrow> hit_record \<Rightarrow> hit_record \<Rightarrow> hittable \<Rightarrow> ray \<Rightarrow> dbl \<Rightarrow> dbl
     \<Rightarrow> hit_record \<Rightarrow> rng \<Rightarrow> bool" where
  "repeatable R dflt dflt' h r t_min t_max rc g =
     (case hit dflt h r t_min t_max rc g of
        (b1, rc1, g1) \<Rightarrow>
          (case hit dflt' h r t_min t_max rc g1 of
             (b2, rc2, g2) \<Rightarrow> b1 = b2 \<and> R rc1 rc2))"

definition generator_free :: "hit_record \<Rightarrow> hittable \<Rightarrow> bool" where
  "generator_free dflt h =
     (\<forall>r t_min t_max rc. \<exists>b rc'. \<forall>g. hit dflt h r t_min t_max rc g = (b, rc', g))"

definition fog_ball :: hittable where
  "fog_ball = constant_medium (Sphere vzero (Fin 10) 0) (Fin 1) 7"

definition far_ray :: ray where
  "far_ray = \<lparr>orig = Vec3 (Fin 0) (Fin 0) (Fin (- 20)), dir = Vec3 (Fin 0) (Fin 0) (Fin 1), tm = Fin 0\<rparr>"

definition rng_two :: rng where
  "rng_two = (\<lambda>n. if n = 0 then 1 / 2 else 1 / 4)"

definition rec_other :: hit_record where
  "rec_other = rec0\<lparr>rec_u := Fin 7, rec_v := Fin 9\<rparr>"

subsection \<open>Roots that are not NaN\<close>





subsection \<open>Normals\<close>



subsection \<open>The nearest hit\<close>

text \<open>
  The value of a finite double. The roots computed for a sphere and a ray are settled when
  the discriminant computed is negative or both roots computed are finite. The first root at
  or after \<open>t_min\<close>, as a real number. The lesser of two optional parameters. The nearest
  root at or after \<open>t_min\<close> among the spheres and moving spheres a hittable is made of. A
  hittable made of spheres and moving spheres with settled roots and of lists of them. A
  hittable answers with \<open>F\<close> when, for every upper bound that is not NaN, every record and
  every generator, \<^verbatim>\<open>hit\<close> returns a hit at \<open>F\<close> if \<open>F\<close> is at or below the bound, and
  otherwise no hit and the record as it was, the generator untouched. Then a sphere like the
  unit sphere with another material and a sphere behind the unit sphere.
\<close>

fun val :: "dbl \<Rightarrow> real" where
  "val (Fin x) = x"
| "val _ = 0"

fun is_fin :: "dbl \<Rightarrow> bool" where
  "is_fin (Fin x) = True"
| "is_fin _ = False"

definition settled :: "vec3 \<Rightarrow> dbl \<Rightarrow> ray \<Rightarrow> bool" where
  "settled center radius r =
     (dlt (discriminant_of center radius r) (Fin 0)
      \<or> (is_fin (smaller_root center radius r) \<and> is_fin (larger_root center radius r)))"

definition first_root :: "vec3 \<Rightarrow> dbl \<Rightarrow> ray \<Rightarrow> dbl \<Rightarrow> real option" where
  "first_root center radius r t_min =
     (if dlt (discriminant_of center radius r) (Fin 0) then None
      else if \<not> dlt (smaller_root center radius r) t_min
           then Some (val (smaller_root center radius r))
      else if \<not> dlt (larger_root center radius r) t_min
           then Some (val (larger_root center radius r))
      else None)"

fun least :: "real option \<Rightarrow> real option \<Rightarrow> real option" where
  "least None b = b"
| "least a None = a"
| "least (Some x) (Some y) = Some (min x y)"

fun nearest :: "hittable \<Rightarrow> ray \<Rightarrow> dbl \<Rightarrow> real option" where
  "nearest (Sphere center radius m) r t_min = first_root center radius r t_min"
| "nearest (MovingSphere center0 center1 time0 time1 radius m) r t_min =
     first_root (center_at center0 center1 time0 time1 (tm r)) radius r t_min"
| "nearest (ConstantMedium boundary phase_function neg_inv_density) r t_min = None"
| "nearest (HittableList objects) r t_min =
     foldr least (map (\<lambda>x. nearest x r t_min) objects) None"
| "nearest (BvhNode left right box) r t_min = least (nearest left r t_min) (nearest right r t_min)"

fun tame :: "ray \<Rightarrow> hittable \<Rightarrow> bool" where
  "tame r (Sphere center radius m) = settled center radius r"
| "tame r (MovingSphere center0 center1 time0 time1 radius m) =
     settled (center_at center0 center1 time0 time1 (tm r)) radius r"
| "tame r (ConstantMedium boundary phase_function neg_inv_density) = False"
| "tame r (HittableList objects) = (\<forall>x\<in>set objects. tame r x)"
| "tame r (BvhNode left right box) = False"

definition answers :: "hit_record \<Rightarrow> hittable \<Rightarrow> ray \<Rightarrow> dbl \<Rightarrow> real option \<Rightarrow> bool" where
  "answers dflt h r t_min F =
     (\<forall>t_max rc g. t_max \<noteq> NaN \<longrightarrow>
        (case F of
           None \<Rightarrow> hit dflt h r t_min t_max rc g = (False, rc, g)
         | Some x \<Rightarrow>
             if dlt t_max (Fin x) then hit dflt h r t_min t_max rc g = (False, rc, g)
             else (\<exists>rc'. hit dflt h r t_min t_max rc g = (True, rc', g) \<and> rec_t rc' = Fin x)))"

definition red_sphere :: hittable where
  "red_sphere = Sphere vzero (Fin 1) 1"

definition sphere_behind :: hittable where
  "sphere_behind = Sphere (Vec3 (Fin 0) (Fin 0) (Fin 3)) (Fin 1) 0"

section \<open>Properties\<close>

subsection \<open>The roots sphere::hit tries\<close>

lemma in_range_not_out: "in_range a b x \<Longrightarrow> \<not> out_of_range a b x"
  unfolding in_range_def out_of_range_def
  by (cases a; cases b; cases x) auto

lemma find_root_eq:
  "find_root c rad r t_min t_max =
     (if dlt (discriminant_of c rad r) (Fin 0) then None
      else if \<not> out_of_range t_min t_max (smaller_root c rad r) then Some (smaller_root c rad r)
      else if \<not> out_of_range t_min t_max (larger_root c rad r) then Some (larger_root c rad r)
      else None)"
  by (simp add: find_root_def Let_def discriminant_of_def smaller_root_def larger_root_def
      quad_a_def quad_half_b_def quad_c_def out_of_range_def)

lemma sphere_hit_None:
  "find_root c rad r t_min t_max = None \<Longrightarrow>
     hit dflt (Sphere c rad m) r t_min t_max rc g = (False, rc, g)"
  by (simp add: sphere_hit_def)

lemma sphere_hit_Some:
  "find_root c rad r t_min t_max = Some x \<Longrightarrow>
     \<exists>rc'. hit dflt (Sphere c rad m) r t_min t_max rc g = (True, rc', g)
       \<and> rec_t rc' = x \<and> rec_p rc' = ray_at r x"
  by (simp add: sphere_hit_def Let_def set_face_normal_def split: prod.splits)

lemma sqrt_16: "sqrt 16 = 4"
  by (rule real_sqrt_unique) simp_all

lemma scenario_root: "find_root vzero (Fin 1) scenario_ray (Fin 0) infinity = Some (Fin 4)"
  by (simp add: find_root_def Let_def scenario_ray_def vzero_def vsub_def dsub_def dot_def
      length_squared_def infinity_def sqrt_16)

lemma scenario_hit:
  "\<exists>rc'. hit dflt (Sphere vzero (Fin 1) m) scenario_ray (Fin 0) infinity rc g = (True, rc', g)
     \<and> rec_t rc' = Fin 4 \<and> rec_p rc' = Vec3 (Fin 0) (Fin 0) (Fin (- 1))
     \<and> normal rc' = Vec3 (Fin 0) (Fin 0) (Fin (- 1)) \<and> front_face rc'"
  apply (simp add: sphere_hit_def scenario_root split: prod.splits)
  apply (simp add: Let_def set_face_normal_def ray_at_def vadd_def smul_def vdiv_def vsub_def
      dsub_def dot_def scenario_ray_def vzero_def split: prod.splits)
  done

text \<open>
  C7. \<^verbatim>\<open>sphere::hit\<close> computes \<open>discriminant = halfB^2 - a c\<close> and returns no hit if it is
  negative. Otherwise it accepts the smaller root \<open>(-halfB - sqrt discriminant) / a\<close> when that
  lies in \<open>[t_min, t_max]\<close>, falls back to the larger root
  \<open>(-halfB + sqrt discriminant) / a\<close> when the smaller one fails the range test, and returns
  no hit when both fail it. For the unit sphere at the origin and the ray from \<open>(0,0,-5)\<close>
  toward \<open>(0,0,1)\<close> with \<open>t_min = 0\<close> and \<open>t_max\<close> infinite it returns a hit with \<open>t = 4\<close>,
  point \<open>(0,0,-1)\<close>, normal \<open>(0,0,-1)\<close> and the front face.
\<close>

theorem sphere_hit_roots:
  "(dlt (discriminant_of c rad r) (Fin 0) \<longrightarrow>
      hit dflt (Sphere c rad m) r t_min t_max rc g = (False, rc, g))
   \<and> (\<not> dlt (discriminant_of c rad r) (Fin 0)
        \<and> in_range t_min t_max (smaller_root c rad r) \<longrightarrow>
      (\<exists>rc'. hit dflt (Sphere c rad m) r t_min t_max rc g = (True, rc', g)
         \<and> rec_t rc' = smaller_root c rad r \<and> rec_p rc' = ray_at r (smaller_root c rad r)))
   \<and> (\<not> dlt (discriminant_of c rad r) (Fin 0)
        \<and> out_of_range t_min t_max (smaller_root c rad r)
        \<and> in_range t_min t_max (larger_root c rad r) \<longrightarrow>
      (\<exists>rc'. hit dflt (Sphere c rad m) r t_min t_max rc g = (True, rc', g)
         \<and> rec_t rc' = larger_root c rad r \<and> rec_p rc' = ray_at r (larger_root c rad r)))
   \<and> (\<not> dlt (discriminant_of c rad r) (Fin 0)
        \<and> out_of_range t_min t_max (smaller_root c rad r)
        \<and> out_of_range t_min t_max (larger_root c rad r) \<longrightarrow>
      hit dflt (Sphere c rad m) r t_min t_max rc g = (False, rc, g))
   \<and> (\<exists>rc'. hit dflt (Sphere vzero (Fin 1) m) scenario_ray (Fin 0) infinity rc g = (True, rc', g)
         \<and> rec_t rc' = Fin 4 \<and> rec_p rc' = Vec3 (Fin 0) (Fin 0) (Fin (- 1))
         \<and> normal rc' = Vec3 (Fin 0) (Fin 0) (Fin (- 1)) \<and> front_face rc')"
proof (intro conjI impI)
  assume "dlt (discriminant_of c rad r) (Fin 0)"
  then have "find_root c rad r t_min t_max = None"
    by (simp add: find_root_eq)
  then show "hit dflt (Sphere c rad m) r t_min t_max rc g = (False, rc, g)"
    by (rule sphere_hit_None)
next
  assume "\<not> dlt (discriminant_of c rad r) (Fin 0) \<and> in_range t_min t_max (smaller_root c rad r)"
  then have "find_root c rad r t_min t_max = Some (smaller_root c rad r)"
    by (simp add: find_root_eq in_range_not_out)
  then show "\<exists>rc'. hit dflt (Sphere c rad m) r t_min t_max rc g = (True, rc', g)
      \<and> rec_t rc' = smaller_root c rad r \<and> rec_p rc' = ray_at r (smaller_root c rad r)"
    by (rule sphere_hit_Some)
next
  assume "\<not> dlt (discriminant_of c rad r) (Fin 0)
      \<and> out_of_range t_min t_max (smaller_root c rad r)
      \<and> in_range t_min t_max (larger_root c rad r)"
  then have "find_root c rad r t_min t_max = Some (larger_root c rad r)"
    by (simp add: find_root_eq in_range_not_out)
  then show "\<exists>rc'. hit dflt (Sphere c rad m) r t_min t_max rc g = (True, rc', g)
      \<and> rec_t rc' = larger_root c rad r \<and> rec_p rc' = ray_at r (larger_root c rad r)"
    by (rule sphere_hit_Some)
next
  assume "\<not> dlt (discriminant_of c rad r) (Fin 0)
      \<and> out_of_range t_min t_max (smaller_root c rad r)
      \<and> out_of_range t_min t_max (larger_root c rad r)"
  then have "find_root c rad r t_min t_max = None"
    by (simp add: find_root_eq)
  then show "hit dflt (Sphere c rad m) r t_min t_max rc g = (False, rc, g)"
    by (rule sphere_hit_None)
next
  show "\<exists>rc'. hit dflt (Sphere vzero (Fin 1) m) scenario_ray (Fin 0) infinity rc g = (True, rc', g)
         \<and> rec_t rc' = Fin 4 \<and> rec_p rc' = Vec3 (Fin 0) (Fin 0) (Fin (- 1))
         \<and> normal rc' = Vec3 (Fin 0) (Fin 0) (Fin (- 1)) \<and> front_face rc'"
    by (rule scenario_hit)
qed

lemma scenario_quadratic:
  "discriminant_of vzero (Fin 1) scenario_ray = Fin 1"
  "smaller_root vzero (Fin 1) scenario_ray = Fin 4"
  "larger_root vzero (Fin 1) scenario_ray = Fin 6"
  by (simp_all add: discriminant_of_def smaller_root_def larger_root_def quad_a_def
      quad_half_b_def quad_c_def scenario_ray_def vzero_def vsub_def dsub_def dot_def
      length_squared_def)

theorem sphere_hit_roots_witness:
  "\<not> dlt (discriminant_of vzero (Fin 1) scenario_ray) (Fin 0)
   \<and> in_range (Fin 0) infinity (smaller_root vzero (Fin 1) scenario_ray)
   \<and> (\<exists>rc'. hit rec0 (Sphere vzero (Fin 1) 0) scenario_ray (Fin 0) infinity rec0 rng_half
            = (True, rc', rng_half)
         \<and> rec_t rc' = Fin 4 \<and> rec_p rc' = ray_at scenario_ray (Fin 4))"
  using sphere_hit_roots [of vzero "Fin 1" scenario_ray rec0 0 "Fin 0" infinity rec0 rng_half]
  by (simp add: scenario_quadratic in_range_def infinity_def)

subsection \<open>hittable\_list::bounding\_box\<close>

lemma dle_refl: "not_nan a \<Longrightarrow> dle a a"
  by (cases a) (simp_all add: not_nan_def)

lemma dle_trans: "dle a b \<Longrightarrow> dle b c \<Longrightarrow> dle a c"
  by (cases a; cases b; cases c) simp_all

lemma fmin_props:
  "not_nan a \<Longrightarrow> not_nan b \<Longrightarrow> dle (fmin a b) a \<and> dle (fmin a b) b \<and> not_nan (fmin a b)"
  by (cases a; cases b) (simp_all add: not_nan_def)

lemma fmax_props:
  "not_nan a \<Longrightarrow> not_nan b \<Longrightarrow> dle a (fmax a b) \<and> dle b (fmax a b) \<and> not_nan (fmax a b)"
  by (cases a; cases b) (simp_all add: not_nan_def)

lemma vle_trans: "vle a b \<Longrightarrow> vle b c \<Longrightarrow> vle a c"
  unfolding vle_def by (blast intro: dle_trans)

lemma box_contains_trans: "box_contains a b \<Longrightarrow> box_contains b c \<Longrightarrow> box_contains a c"
  unfolding box_contains_def by (blast intro: vle_trans)

lemma box_contains_refl: "box_not_nan a \<Longrightarrow> box_contains a a"
  by (simp add: box_contains_def vle_def box_not_nan_def vec_not_nan_def dle_refl)

lemma surrounding_box_contains:
  assumes "box_not_nan a" "box_not_nan b"
  shows "box_contains (surrounding_box a b) a" "box_contains (surrounding_box a b) b"
    "box_not_nan (surrounding_box a b)"
  using assms
  by (simp_all add: surrounding_box_def box_contains_def vle_def box_not_nan_def vec_not_nan_def
      fmin_props fmax_props)

lemma foldl_surrounding_contains:
  assumes "box_not_nan acc" "\<forall>b\<in>set bs. box_not_nan b"
  shows "box_contains (foldl surrounding_box acc bs) acc
    \<and> (\<forall>b\<in>set bs. box_contains (foldl surrounding_box acc bs) b)
    \<and> box_not_nan (foldl surrounding_box acc bs)"
  using assms
proof (induction bs arbitrary: acc)
  case Nil
  then show ?case by (simp add: box_contains_refl)
next
  case (Cons b bs)
  let ?acc = "surrounding_box acc b"
  have nn: "box_not_nan ?acc" and ca: "box_contains ?acc acc" and cb: "box_contains ?acc b"
    using Cons.prems by (simp_all add: surrounding_box_contains)
  have IH: "box_contains (foldl surrounding_box ?acc bs) ?acc
    \<and> (\<forall>b\<in>set bs. box_contains (foldl surrounding_box ?acc bs) b)
    \<and> box_not_nan (foldl surrounding_box ?acc bs)"
    by (rule Cons.IH) (use nn Cons.prems in simp_all)
  then show ?case
    using ca cb by (auto intro: box_contains_trans)
qed

lemma union_boxes_contains:
  assumes "\<forall>b\<in>set bs. box_not_nan b" "b \<in> set bs"
  shows "box_contains (union_boxes bs) b"
proof (cases bs)
  case Nil
  with assms show ?thesis by simp
next
  case (Cons c cs)
  with assms foldl_surrounding_contains[of c cs] show ?thesis by auto
qed

lemma loop_box_Cons:
  "loop_box first out (b # bs) = loop_box False (if first then b else surrounding_box out b) bs"
  by (simp add: loop_box_def)

lemma bbo_gen:
  assumes "\<And>x b. x \<in> set os \<Longrightarrow> fst (bounding_box x t0 t1 b) = has_box x t0 t1
     \<and> (has_box x t0 t1 \<longrightarrow> snd (bounding_box x t0 t1 b) = box_of x t0 t1)"
  shows "fst (bounding_box_objects os t0 t1 temp first out) = (\<forall>x\<in>set os. has_box x t0 t1)
     \<and> ((\<forall>x\<in>set os. has_box x t0 t1) \<longrightarrow>
          snd (bounding_box_objects os t0 t1 temp first out)
            = loop_box first out (map (\<lambda>x. box_of x t0 t1) os))"
  using assms
proof (induction os arbitrary: temp first out)
  case Nil
  then show ?case by (simp add: loop_box_def)
next
  case (Cons x xs)
  obtain b tb where bt: "bounding_box x t0 t1 temp = (b, tb)"
    by (cases "bounding_box x t0 t1 temp")
  have "fst (bounding_box x t0 t1 temp) = has_box x t0 t1
     \<and> (has_box x t0 t1 \<longrightarrow> snd (bounding_box x t0 t1 temp) = box_of x t0 t1)"
    by (rule Cons.prems) simp
  with bt have b: "b = has_box x t0 t1"
    and tb: "has_box x t0 t1 \<Longrightarrow> tb = box_of x t0 t1" by simp_all
  show ?case
  proof (cases b)
    case False
    with bt b show ?thesis by simp
  next
    case True
    let ?out = "if first then tb else surrounding_box out tb"
    have step: "bounding_box_objects (x # xs) t0 t1 temp first out
        = bounding_box_objects xs t0 t1 tb False ?out"
      using bt True by simp
    have IH: "fst (bounding_box_objects xs t0 t1 tb False ?out) = (\<forall>x\<in>set xs. has_box x t0 t1)
     \<and> ((\<forall>x\<in>set xs. has_box x t0 t1) \<longrightarrow>
          snd (bounding_box_objects xs t0 t1 tb False ?out)
            = loop_box False ?out (map (\<lambda>x. box_of x t0 t1) xs))"
      by (rule Cons.IH) (simp add: Cons.prems)
    have hx: "has_box x t0 t1" using b True by simp
    have tbx: "tb = box_of x t0 t1" using tb hx by simp
    show ?thesis
      unfolding step using IH hx by (simp add: loop_box_Cons tbx)
  qed
qed

lemma has_box_simps:
  "has_box (Sphere c rad m) t0 t1 = True"
  "has_box (MovingSphere c0 c1 ta tb rad m) t0 t1 = True"
  "has_box (BvhNode l r bx) t0 t1 = True"
  "has_box (ConstantMedium h ph d) t0 t1 = has_box h t0 t1"
  "has_box (HittableList []) t0 t1 = False"
  by (simp_all add: has_box_def)

lemma box_of_simps:
  "box_of (Sphere c rad m) t0 t1 = sphere_bounding_box c rad"
  "box_of (MovingSphere c0 c1 ta tb rad m) t0 t1 = moving_sphere_bounding_box c0 c1 ta tb rad t0 t1"
  "box_of (BvhNode l r bx) t0 t1 = bx"
  "box_of (ConstantMedium h ph d) t0 t1 = box_of h t0 t1"
  by (simp_all add: box_of_def)

lemma bb_indep:
  "fst (bounding_box h t0 t1 b) = has_box h t0 t1
     \<and> (has_box h t0 t1 \<longrightarrow> snd (bounding_box h t0 t1 b) = box_of h t0 t1)"
proof (induction h arbitrary: b)
  case (Sphere c rad m)
  show ?case by (simp add: has_box_simps box_of_simps)
next
  case (MovingSphere c0 c1 ta tb rad m)
  show ?case by (simp add: has_box_simps box_of_simps)
next
  case (BvhNode l r bx)
  show ?case by (simp add: has_box_simps box_of_simps)
next
  case (ConstantMedium h ph d)
  have "bounding_box (ConstantMedium h ph d) t0 t1 b = bounding_box h t0 t1 b" by simp
  then show ?case using ConstantMedium[of b] by (simp add: has_box_simps box_of_simps)
next
  case (HittableList xs)
  show ?case
  proof (cases xs)
    case Nil
    then show ?thesis by (simp add: has_box_simps)
  next
    case (Cons y ys)
    have e1: "bounding_box (HittableList xs) t0 t1 b = bounding_box_objects xs t0 t1 aabb_default True b"
      using Cons by simp
    have e2: "bounding_box (HittableList xs) t0 t1 aabb_default = bounding_box_objects xs t0 t1 aabb_default True aabb_default"
      using Cons by simp
    note g1 = bbo_gen[of xs t0 t1 aabb_default True b, OF HittableList]
    note g2 = bbo_gen[of xs t0 t1 aabb_default True aabb_default, OF HittableList]
    have l: "loop_box True b (map (\<lambda>x. box_of x t0 t1) xs) = loop_box True aabb_default (map (\<lambda>x. box_of x t0 t1) xs)"
      using Cons by (simp add: loop_box_def)
    show ?thesis
      unfolding has_box_def box_of_def e1 e2 using g1 g2 l by simp
  qed
qed

lemma bbo_spec:
  "fst (bounding_box_objects os t0 t1 temp first out) = (\<forall>x\<in>set os. has_box x t0 t1)
     \<and> ((\<forall>x\<in>set os. has_box x t0 t1) \<longrightarrow>
          snd (bounding_box_objects os t0 t1 temp first out)
            = loop_box first out (map (\<lambda>x. box_of x t0 t1) os))"
  by (rule bbo_gen) (rule bb_indep)

lemma list_bb_fails:
  "\<not> fst (bounding_box (HittableList os) t0 t1 out) \<longleftrightarrow> (os = [] \<or> (\<exists>x\<in>set os. \<not> has_box x t0 t1))"
proof (cases "os = []")
  case True
  then show ?thesis by simp
next
  case False
  then have "bounding_box (HittableList os) t0 t1 out = bounding_box_objects os t0 t1 aabb_default True out"
    by simp
  with bbo_spec[of os t0 t1 aabb_default True out] False show ?thesis
    by simp
qed

lemma list_bb_box:
  assumes "fst (bounding_box (HittableList os) t0 t1 out)"
  shows "snd (bounding_box (HittableList os) t0 t1 out) = union_boxes (map (\<lambda>x. box_of x t0 t1) os)"
proof (cases os)
  case Nil
  with assms show ?thesis by simp
next
  case (Cons x xs)
  then have eq: "bounding_box (HittableList os) t0 t1 out = bounding_box_objects os t0 t1 aabb_default True out"
    by simp
  from assms eq bbo_spec[of os t0 t1 aabb_default True out]
  have "snd (bounding_box_objects os t0 t1 aabb_default True out) = loop_box True out (map (\<lambda>x. box_of x t0 t1) os)"
    by simp
  with eq Cons show ?thesis by (simp add: loop_box_def)
qed

lemma stuck_ball_box:
  "box_of stuck_ball (Fin 0) (Fin 1)
     = \<lparr>minimum = Vec3 NaN PInf NaN, maximum = Vec3 NaN PInf NaN\<rparr>"
  by (simp add: box_of_simps stuck_ball_def moving_sphere_bounding_box_def
      sphere_bounding_box_def center_at_def surrounding_box_def vzero_def vsub_def vadd_def
      smul_def dsub_def inf_times_def Let_def)

text \<open>
  C5, as stated, fails: the list that holds one moving sphere with \<^verbatim>\<open>time0 = time1\<close> succeeds,
  its box has NaN coordinates, and no comparison places the member's box inside it.
\<close>

theorem list_box_with_nan_contains_no_member:
  "fst (bounding_box (HittableList [stuck_ball]) (Fin 0) (Fin 1) aabb_default)
   \<and> snd (bounding_box (HittableList [stuck_ball]) (Fin 0) (Fin 1) aabb_default)
       = \<lparr>minimum = Vec3 NaN PInf NaN, maximum = Vec3 NaN PInf NaN\<rparr>
   \<and> \<not> box_contains (snd (bounding_box (HittableList [stuck_ball]) (Fin 0) (Fin 1) aabb_default))
         (box_of stuck_ball (Fin 0) (Fin 1))"
proof -
  have b: "bounding_box stuck_ball (Fin 0) (Fin 1) aabb_default
      = (True, \<lparr>minimum = Vec3 NaN PInf NaN, maximum = Vec3 NaN PInf NaN\<rparr>)"
    using stuck_ball_box by (simp add: box_of_def stuck_ball_def)
  have l: "bounding_box (HittableList [stuck_ball]) (Fin 0) (Fin 1) aabb_default
      = (True, \<lparr>minimum = Vec3 NaN PInf NaN, maximum = Vec3 NaN PInf NaN\<rparr>)"
    by (simp add: b del: bounding_box.simps(2))
  show ?thesis
    unfolding l stuck_ball_box by (simp add: box_contains_def vle_def)
qed

text \<open>
  C5, amended: \<^verbatim>\<open>hittable_list::bounding_box\<close> reports no box exactly when the list is empty
  or some member reports no box (whatever box the member is handed to write to); when it
  succeeds, the output box is the fold of \<^verbatim>\<open>surrounding_box\<close> over the members' boxes, and it
  contains the box of every member provided no coordinate of a member's box is NaN. The
  empty list yields failure.
\<close>

theorem hittable_list_bounding_box:
  "(\<not> fst (bounding_box (HittableList os) t0 t1 out)
      \<longleftrightarrow> (os = [] \<or> (\<exists>x\<in>set os. \<not> has_box x t0 t1)))
   \<and> (\<forall>x b. fst (bounding_box x t0 t1 b) = has_box x t0 t1)
   \<and> (fst (bounding_box (HittableList os) t0 t1 out) \<longrightarrow>
        snd (bounding_box (HittableList os) t0 t1 out)
          = union_boxes (map (\<lambda>x. box_of x t0 t1) os))
   \<and> (fst (bounding_box (HittableList os) t0 t1 out)
        \<and> (\<forall>x\<in>set os. box_not_nan (box_of x t0 t1)) \<longrightarrow>
        (\<forall>x\<in>set os. box_contains (snd (bounding_box (HittableList os) t0 t1 out))
                         (box_of x t0 t1)))
   \<and> \<not> fst (bounding_box (HittableList []) t0 t1 out)"
proof (intro conjI impI allI)
  show "(\<not> fst (bounding_box (HittableList os) t0 t1 out))
      = (os = [] \<or> (\<exists>x\<in>set os. \<not> has_box x t0 t1))"
    by (rule list_bb_fails)
next
  fix x b show "fst (bounding_box x t0 t1 b) = has_box x t0 t1"
    using bb_indep[of x t0 t1 b] by simp
next
  assume "fst (bounding_box (HittableList os) t0 t1 out)"
  then show "snd (bounding_box (HittableList os) t0 t1 out)
          = union_boxes (map (\<lambda>x. box_of x t0 t1) os)"
    by (rule list_bb_box)
next
  assume a: "fst (bounding_box (HittableList os) t0 t1 out)
        \<and> (\<forall>x\<in>set os. box_not_nan (box_of x t0 t1))"
  then have "fst (bounding_box (HittableList os) t0 t1 out)"
    by (rule conjunct1)
  then have e: "snd (bounding_box (HittableList os) t0 t1 out)
          = union_boxes (map (\<lambda>x. box_of x t0 t1) os)"
    by (rule list_bb_box)
  show "\<forall>x\<in>set os. box_contains (snd (bounding_box (HittableList os) t0 t1 out))
                         (box_of x t0 t1)"
    unfolding e
  proof
    fix x assume "x \<in> set os"
    then show "box_contains (union_boxes (map (\<lambda>x. box_of x t0 t1) os)) (box_of x t0 t1)"
      using a by (intro union_boxes_contains) auto
  qed
next
  show "\<not> fst (bounding_box (HittableList []) t0 t1 out)"
    by simp
qed

lemma two_spheres_boxes:
  "box_of unit_sphere (Fin 0) (Fin 1)
     = \<lparr>minimum = Vec3 (Fin (- 1)) (Fin (- 1)) (Fin (- 1)), maximum = Vec3 (Fin 1) (Fin 1) (Fin 1)\<rparr>"
  "box_of sphere_at_3 (Fin 0) (Fin 1)
     = \<lparr>minimum = Vec3 (Fin 2) (Fin (- 1)) (Fin (- 1)), maximum = Vec3 (Fin 4) (Fin 1) (Fin 1)\<rparr>"
  by (simp_all add: box_of_simps unit_sphere_def sphere_at_3_def sphere_bounding_box_def
      vzero_def vsub_def vadd_def dsub_def)

theorem hittable_list_bounding_box_witness:
  "has_box unit_sphere (Fin 0) (Fin 1) \<and> has_box sphere_at_3 (Fin 0) (Fin 1)
   \<and> box_not_nan (box_of unit_sphere (Fin 0) (Fin 1))
   \<and> box_not_nan (box_of sphere_at_3 (Fin 0) (Fin 1))
   \<and> fst (bounding_box (HittableList [unit_sphere, sphere_at_3]) (Fin 0) (Fin 1) aabb_default)
   \<and> snd (bounding_box (HittableList [unit_sphere, sphere_at_3]) (Fin 0) (Fin 1) aabb_default)
       = \<lparr>minimum = Vec3 (Fin (- 1)) (Fin (- 1)) (Fin (- 1)),
          maximum = Vec3 (Fin 4) (Fin 1) (Fin 1)\<rparr>
   \<and> box_contains
        (snd (bounding_box (HittableList [unit_sphere, sphere_at_3]) (Fin 0) (Fin 1) aabb_default))
        (box_of unit_sphere (Fin 0) (Fin 1))
   \<and> box_contains
        (snd (bounding_box (HittableList [unit_sphere, sphere_at_3]) (Fin 0) (Fin 1) aabb_default))
        (box_of sphere_at_3 (Fin 0) (Fin 1))"
proof -
  have h: "has_box unit_sphere (Fin 0) (Fin 1)" "has_box sphere_at_3 (Fin 0) (Fin 1)"
    by (simp_all add: unit_sphere_def sphere_at_3_def has_box_simps)
  have n: "box_not_nan (box_of unit_sphere (Fin 0) (Fin 1))"
    "box_not_nan (box_of sphere_at_3 (Fin 0) (Fin 1))"
    by (simp_all add: two_spheres_boxes box_not_nan_def vec_not_nan_def not_nan_def)
  have u: "union_boxes (map (\<lambda>x. box_of x (Fin 0) (Fin 1)) [unit_sphere, sphere_at_3])
     = \<lparr>minimum = Vec3 (Fin (- 1)) (Fin (- 1)) (Fin (- 1)),
          maximum = Vec3 (Fin 4) (Fin 1) (Fin 1)\<rparr>"
    by (simp add: two_spheres_boxes surrounding_box_def)
  note T = hittable_list_bounding_box
    [of "[unit_sphere, sphere_at_3]" "Fin 0" "Fin 1" aabb_default]
  from T h have ok:
    "fst (bounding_box (HittableList [unit_sphere, sphere_at_3]) (Fin 0) (Fin 1) aabb_default)"
    by (auto simp del: bounding_box.simps)
  from T ok u have bx:
    "snd (bounding_box (HittableList [unit_sphere, sphere_at_3]) (Fin 0) (Fin 1) aabb_default)
       = \<lparr>minimum = Vec3 (Fin (- 1)) (Fin (- 1)) (Fin (- 1)),
          maximum = Vec3 (Fin 4) (Fin 1) (Fin 1)\<rparr>"
    by (auto simp del: bounding_box.simps)
  from T ok n have
    "\<forall>x\<in>set [unit_sphere, sphere_at_3].
       box_contains
         (snd (bounding_box (HittableList [unit_sphere, sphere_at_3]) (Fin 0) (Fin 1) aabb_default))
         (box_of x (Fin 0) (Fin 1))"
    by (auto simp del: bounding_box.simps)
  then show ?thesis using h n ok bx by (simp del: bounding_box.simps)
qed

subsection \<open>aabb::hit\<close>

lemma vidx_numeral [simp]: "vidx q 1 = vy q" "vidx q 2 = vz q"
  by (simp_all add: numeral_2_eq_2)

lemma axis_step_tighten:
  "axis_step b r a tt = (\<not> is_empty (tighten b r a tt), tighten b r a tt)"
  by (simp add: axis_step_def slab_axis_def tighten_def slab_planes_def is_empty_def dmax_def
      dmin_def Let_def split: prod.splits)

lemma aabb_hit_no_axis_empty: "aabb_hit b r t_min t_max = no_axis_empty b r t_min t_max"
  by (simp add: aabb_hit_def no_axis_empty_def axis_step_tighten Let_def)

lemma axis_step_zero:
  "vidx (dir r) a = Fin 0 \<Longrightarrow>
     axis_step b r a tt
       = slab_axis PInf (vidx (minimum b) a) (vidx (maximum b) a) (vidx (orig r) a) tt"
  by (simp add: axis_step_def)

lemma dlt_special [simp]:
  "dlt a NaN = False" "dlt a NInf = False" "dlt PInf a = False"
  by (cases a; simp)+

lemma dle_special [simp]:
  "dle a NaN = False" "a \<noteq> NaN \<Longrightarrow> dle a PInf" "a \<noteq> NaN \<Longrightarrow> dle NInf a"
  by (cases a; simp)+

lemma dlt_PInf_iff: "dlt a PInf \<longleftrightarrow> a = NInf \<or> (\<exists>x. a = Fin x)"
  by (cases a) simp_all

lemma dlt_NInf_iff: "dlt NInf a \<longleftrightarrow> a = PInf \<or> (\<exists>x. a = Fin x)"
  by (cases a) simp_all

lemma not_dlt_PInf: "a \<noteq> NaN \<Longrightarrow> \<not> dlt a PInf \<Longrightarrow> a = PInf"
  by (cases a) simp_all

lemma not_dlt_NInf: "a \<noteq> NaN \<Longrightarrow> \<not> dlt NInf a \<Longrightarrow> a = NInf"
  by (cases a) simp_all

lemma slab_axis_PInf:
  "slab_axis PInf (Fin mn) (Fin mx) (Fin og) (lo, hi) =
     (let t0 = inf_times True (mn - og); t1 = inf_times True (mx - og);
          t_min = (if dlt lo t0 then t0 else lo); t_max = (if dlt t1 hi then t1 else hi)
      in (\<not> dle t_max t_min, t_min, t_max))"
  by (simp add: slab_axis_def dsub_def Let_def)

lemma slab_axis_NInf:
  "slab_axis NInf (Fin mn) (Fin mx) (Fin og) (lo, hi) =
     (let t0 = inf_times False (mx - og); t1 = inf_times False (mn - og);
          t_min = (if dlt lo t0 then t0 else lo); t_max = (if dlt t1 hi then t1 else hi)
      in (\<not> dle t_max t_min, t_min, t_max))"
  by (simp add: slab_axis_def dsub_def Let_def)

lemma slab_axis_inf_inside:
  assumes "invD = PInf \<or> invD = NInf" "mn \<le> og" "og \<le> mx" "lo \<noteq> NaN" "hi \<noteq> NaN"
  shows "slab_axis invD (Fin mn) (Fin mx) (Fin og) (lo, hi) = (\<not> dle hi lo, lo, hi)"
proof -
  have a: "inf_times True (mn - og) = NaN \<or> inf_times True (mn - og) = NInf"
    "inf_times True (mx - og) = NaN \<or> inf_times True (mx - og) = PInf"
    "inf_times False (mx - og) = NaN \<or> inf_times False (mx - og) = NInf"
    "inf_times False (mn - og) = NaN \<or> inf_times False (mn - og) = PInf"
    using assms(2,3) by (auto simp add: inf_times_def)
  from assms(1) show ?thesis
  proof
    assume "invD = PInf"
    then show ?thesis using a(1,2) by (auto simp add: slab_axis_PInf Let_def)
  next
    assume "invD = NInf"
    then show ?thesis using a(3,4) by (auto simp add: slab_axis_NInf Let_def)
  qed
qed

lemma slab_axis_inf_outside:
  assumes "invD = PInf \<or> invD = NInf" "mn \<le> mx" "og < mn \<or> mx < og" "lo \<noteq> NaN" "hi \<noteq> NaN"
  shows "fst (slab_axis invD (Fin mn) (Fin mx) (Fin og) (lo, hi)) = False"
proof -
  have a: "(inf_times True (mn - og) = PInf \<and> inf_times True (mx - og) = PInf)
         \<or> (inf_times True (mn - og) = NInf \<and> inf_times True (mx - og) = NInf)"
    "(inf_times False (mn - og) = PInf \<and> inf_times False (mx - og) = PInf)
         \<or> (inf_times False (mn - og) = NInf \<and> inf_times False (mx - og) = NInf)"
    using assms(2,3) by (auto simp add: inf_times_def)
  from assms(1) show ?thesis
  proof
    assume "invD = PInf"
    then show ?thesis using a(1) assms(4,5) by (auto simp add: slab_axis_PInf Let_def dest: not_dlt_PInf not_dlt_NInf)
  next
    assume "invD = NInf"
    then show ?thesis using a(2) assms(4,5) by (auto simp add: slab_axis_NInf Let_def dest: not_dlt_PInf not_dlt_NInf)
  qed
qed

lemma scen2: "aabb_hit unit_box scenario_ray (Fin 0) (Fin 10)"
  by (simp add: aabb_hit_def axis_step_def slab_axis_def unit_box_def scenario_ray_def dsub_def inf_times_def Let_def)

text \<open>
  C6. \<^verbatim>\<open>aabb::hit\<close> returns true exactly when, after the per-axis slab tightening, no axis
  yields \<open>t_max <= t_min\<close>. When a direction component is exactly 0, \<open>invD\<close> is an infinity
  (\<open>PInf\<close> for \<open>+0.0\<close>; \<open>NInf\<close> is what \<open>-0.0\<close> gives), and for either infinity the comparisons
  classify the ray: with the origin inside the slab the interval is left as it is, with the
  origin outside the slab the test fails.
\<close>

theorem aabb_hit_slabs:
  "aabb_hit b r t_min t_max = no_axis_empty b r t_min t_max
   \<and> (vidx (dir r) a = Fin 0 \<longrightarrow>
        axis_step b r a tt
          = slab_axis PInf (vidx (minimum b) a) (vidx (maximum b) a) (vidx (orig r) a) tt)
   \<and> ((invD = PInf \<or> invD = NInf) \<and> mn \<le> og \<and> og \<le> mx \<and> lo \<noteq> NaN \<and> hi \<noteq> NaN \<longrightarrow>
        slab_axis invD (Fin mn) (Fin mx) (Fin og) (lo, hi) = (\<not> dle hi lo, lo, hi))
   \<and> ((invD = PInf \<or> invD = NInf) \<and> mn \<le> mx \<and> (og < mn \<or> mx < og)
        \<and> lo \<noteq> NaN \<and> hi \<noteq> NaN \<longrightarrow>
        \<not> fst (slab_axis invD (Fin mn) (Fin mx) (Fin og) (lo, hi)))"
proof (intro conjI impI)
  show "aabb_hit b r t_min t_max = no_axis_empty b r t_min t_max"
    by (rule aabb_hit_no_axis_empty)
next
  assume "vidx (dir r) a = Fin 0"
  then show "axis_step b r a tt
      = slab_axis PInf (vidx (minimum b) a) (vidx (maximum b) a) (vidx (orig r) a) tt"
    by (rule axis_step_zero)
next
  assume "(invD = PInf \<or> invD = NInf) \<and> mn \<le> og \<and> og \<le> mx \<and> lo \<noteq> NaN \<and> hi \<noteq> NaN"
  then show "slab_axis invD (Fin mn) (Fin mx) (Fin og) (lo, hi) = (\<not> dle hi lo, lo, hi)"
    by (intro slab_axis_inf_inside) simp_all
next
  assume "(invD = PInf \<or> invD = NInf) \<and> mn \<le> mx \<and> (og < mn \<or> mx < og)
      \<and> lo \<noteq> NaN \<and> hi \<noteq> NaN"
  then have "fst (slab_axis invD (Fin mn) (Fin mx) (Fin og) (lo, hi)) = False"
    by (intro slab_axis_inf_outside) simp_all
  then show "\<not> fst (slab_axis invD (Fin mn) (Fin mx) (Fin og) (lo, hi))"
    by simp
qed

theorem aabb_hit_slabs_witness:
  "aabb_hit unit_box scenario_ray (Fin 0) (Fin 10)
   \<and> no_axis_empty unit_box scenario_ray (Fin 0) (Fin 10)
   \<and> vidx (dir scenario_ray) 0 = Fin 0
   \<and> axis_step unit_box scenario_ray 0 (Fin 0, Fin 10) = (True, Fin 0, Fin 10)
   \<and> \<not> fst (slab_axis NInf (Fin (- 1)) (Fin 1) (Fin 2) (Fin 0, Fin 10))"
proof -
  have z: "vidx (dir scenario_ray) 0 = Fin 0"
    by (simp add: scenario_ray_def)
  from aabb_hit_slabs [where b = unit_box and r = scenario_ray and t_min = "Fin 0"
      and t_max = "Fin 10" and a = 0 and tt = "(Fin 0, Fin 10)" and invD = PInf and mn = "- 1"
      and og = 0 and mx = 1 and lo = "Fin 0" and hi = "Fin 10"] scen2 z
  have 1: "no_axis_empty unit_box scenario_ray (Fin 0) (Fin 10)"
    and 2: "axis_step unit_box scenario_ray 0 (Fin 0, Fin 10) = (True, Fin 0, Fin 10)"
    by (simp_all add: unit_box_def scenario_ray_def)
  from aabb_hit_slabs [where invD = NInf and mn = "- 1" and og = 2 and mx = 1
      and lo = "Fin 0" and hi = "Fin 10"]
  have 3: "\<not> fst (slab_axis NInf (Fin (- 1)) (Fin 1) (Fin 2) (Fin 0, Fin 10))"
    by simp
  from scen2 1 z 2 3 show ?thesis by simp
qed

subsection \<open>Construction of the hierarchy\<close>

lemma bvh_node_of_shape:
  "\<exists>bx err'. bvh_node_of l rt t0 t1 err = (BvhNode l rt bx, err')"
  by (simp add: bvh_node_of_def split: prod.splits)

lemma bvh_node_of_eq:
  "bvh_node_of l rt t0 t1 err =
     (BvhNode l rt (surrounding_box (box_of l t0 t1)
                     (if has_box l t0 t1 then box_of rt t0 t1 else aabb_default)),
      if has_box l t0 t1 \<and> has_box rt t0 t1 then err else err @ [no_box_message])"
  by (auto simp add: bvh_node_of_def has_box_def box_of_def split: prod.splits)


lemma sort_range_fst:
  "fst (sort_range srt cmp xs start end_idx)
     = take start xs @ fst (srt (\<lambda>a b. fst (cmp a b)) (range_of xs start end_idx))
         @ drop end_idx xs"
  by (simp add: sort_range_def range_of_def split: prod.splits)

lemma sort_range_snd:
  "snd (sort_range srt cmp xs start end_idx)
     = concat (map (\<lambda>(a, b). snd (cmp a b))
         (snd (srt (\<lambda>a b. fst (cmp a b)) (range_of xs start end_idx))))"
  by (simp add: sort_range_def range_of_def split: prod.splits)





lemma range_of_split:
  assumes "start \<le> mid" "mid \<le> end_idx"
  shows "range_of xs start end_idx = range_of xs start mid @ range_of xs mid end_idx"
proof -
  have e: "end_idx - start = (mid - start) + (end_idx - mid)" using assms by simp
  have "take (end_idx - start) (drop start xs)
      = take ((mid - start) + (end_idx - mid)) (drop start xs)"
    by (simp only: e)
  also have "\<dots> = take (mid - start) (drop start xs)
      @ take (end_idx - mid) (drop (mid - start) (drop start xs))"
    by (rule take_add)
  also have "drop (mid - start) (drop start xs) = drop mid xs"
    using assms by simp
  finally show ?thesis by (simp add: range_of_def)
qed

lemma ctor_Suc:
  "bvh_node_ctor (Suc depth) srt src start end_idx time0 time1 g err =
     (if end_idx < start \<or> length src < end_idx then None
      else
        let axis = fst (random_int 0 2 g); g1 = snd (random_int 0 2 g);
            comparator = (if axis = 0 then box_x_compare
                          else if axis = 1 then box_y_compare
                          else box_z_compare)
        in if end_idx - start = 1 then
             Some (fst (bvh_node_of (src ! start) (src ! start) time0 time1 err), g1,
                   snd (bvh_node_of (src ! start) (src ! start) time0 time1 err))
           else if end_idx - start = 2 then
             (let err2 = err @ snd (comparator (src ! start) (src ! (start + 1)));
                  res = (if fst (comparator (src ! start) (src ! (start + 1)))
                         then bvh_node_of (src ! start) (src ! (start + 1)) time0 time1 err2
                         else bvh_node_of (src ! (start + 1)) (src ! start) time0 time1 err2)
              in Some (fst res, g1, snd res))
           else
             let objects = fst (sort_range srt comparator src start end_idx);
                 err1 = err @ snd (sort_range srt comparator src start end_idx);
                 mid = start + (end_idx - start) div 2
             in (case bvh_node_ctor depth srt objects start mid time0 time1 g1 err1 of
                   None \<Rightarrow> None
                 | Some (left, g2, err2) \<Rightarrow>
                     (case bvh_node_ctor depth srt objects mid end_idx time0 time1 g2 err2 of
                        None \<Rightarrow> None
                      | Some (right, g3, err3) \<Rightarrow>
                          Some (fst (bvh_node_of left right time0 time1 err3), g3,
                                snd (bvh_node_of left right time0 time1 err3)))))"
  by (simp add: Let_def split: prod.splits option.splits)

declare bvh_node_ctor.simps(2) [simp del]

lemma ctor_empty_range: "bvh_node_ctor depth srt src start start time0 time1 g err = None"
proof (induction depth arbitrary: src g err)
  case 0
  show ?case by simp
next
  case (Suc depth)
  show ?case
    unfolding ctor_Suc by (simp add: Let_def Suc.IH)
qed

lemma comparator_corner:
  "fst ((if axis = 0 then box_x_compare else if axis = 1 then box_y_compare else box_z_compare) a b)
     = corner_less (axis_of axis) a b"
  by (simp add: box_x_compare_def box_y_compare_def box_z_compare_def box_compare_def
      corner_less_def axis_of_def has_box_def box_of_def split: prod.splits)



lemma bvh_node_of_erase:
  assumes "erase_boxes l = erase_boxes l'" "erase_boxes rt = erase_boxes rt'"
  shows "erase_boxes (fst (bvh_node_of l rt t0 t1 err)) = erase_boxes (fst (bvh_node_of l' rt' t0' t1' err'))"
  using assms by (simp add: bvh_node_of_eq)

lemma built_tree_SomeD:
  "built_tree (Some (l, g2, e2)) = built_tree res' \<Longrightarrow>
     \<exists>l' e2'. res' = Some (l', g2, e2') \<and> erase_boxes l = erase_boxes l'"
  by (cases res') (auto simp add: built_tree_def)

lemma built_tree_NoneD: "built_tree None = built_tree res' \<Longrightarrow> res' = None"
  by (cases res') (auto simp add: built_tree_def)

lemma ctor_window:
  "built_tree (bvh_node_ctor depth srt src start end_idx time0 time1 g err)
     = built_tree (bvh_node_ctor depth srt src start end_idx time0' time1' g err')"
proof (induction depth arbitrary: src start end_idx g err err')
  case 0
  show ?case by (simp add: built_tree_def)
next
  case (Suc depth)
  let ?g1 = "snd (random_int 0 2 g)"
  let ?axis = "fst (random_int 0 2 g)"
  let ?cmp = "(if ?axis = 0 then box_x_compare else if ?axis = 1 then box_y_compare
               else box_z_compare)"
  let ?objects = "fst (sort_range srt ?cmp src start end_idx)"
  let ?lines0 = "snd (sort_range srt ?cmp src start end_idx)"
  let ?mid = "start + (end_idx - start) div 2"
  show ?case
  proof (cases "end_idx < start \<or> length src < end_idx")
    case True
    then show ?thesis by (simp add: ctor_Suc built_tree_def)
  next
    case rng: False
    consider "end_idx - start = 1" | "end_idx - start = 2"
      | "end_idx - start \<noteq> 1 \<and> end_idx - start \<noteq> 2"
      by blast
    then show ?thesis
    proof cases
      case 1
      with rng show ?thesis
        by (simp add: ctor_Suc built_tree_def Let_def bvh_node_of_eq)
    next
      case 2
      with rng show ?thesis
        by (simp add: ctor_Suc built_tree_def Let_def bvh_node_of_eq)
    next
      case 3
      note L = Suc.IH[of ?objects start ?mid ?g1 "err @ ?lines0" "err' @ ?lines0"]
      show ?thesis
      proof (cases "bvh_node_ctor depth srt ?objects start ?mid time0 time1 ?g1 (err @ ?lines0)")
        case None
        with L have "bvh_node_ctor depth srt ?objects start ?mid time0' time1' ?g1 (err' @ ?lines0)
            = None"
          by (simp add: built_tree_NoneD)
        with None rng 3 show ?thesis
          by (simp add: ctor_Suc built_tree_def Let_def)
      next
        case (Some a)
        obtain l g2 e2 where a: "a = (l, g2, e2)" by (cases a)
        from L Some a obtain l' e2' where
          L': "bvh_node_ctor depth srt ?objects start ?mid time0' time1' ?g1 (err' @ ?lines0)
              = Some (l', g2, e2')"
          and el: "erase_boxes l = erase_boxes l'"
          using built_tree_SomeD[of l g2 e2] by metis
        note R = Suc.IH[of ?objects ?mid end_idx g2 e2 e2']
        show ?thesis
        proof (cases "bvh_node_ctor depth srt ?objects ?mid end_idx time0 time1 g2 e2")
          case None
          with R have "bvh_node_ctor depth srt ?objects ?mid end_idx time0' time1' g2 e2' = None"
            by (simp add: built_tree_NoneD)
          with None rng 3 Some a L' show ?thesis
            by (simp add: ctor_Suc built_tree_def Let_def)
        next
          case (Some c)
          obtain rt g3 e3 where c: "c = (rt, g3, e3)" by (cases c)
          from R Some c obtain rt' e3' where
            R': "bvh_node_ctor depth srt ?objects ?mid end_idx time0' time1' g2 e2' = Some (rt', g3, e3')"
            and er: "erase_boxes rt = erase_boxes rt'"
            using built_tree_SomeD[of rt g3 e3] by metis
          from rng 3
            \<open>bvh_node_ctor depth srt ?objects start ?mid time0 time1 ?g1 (err @ ?lines0) = Some a\<close>
            a L' Some c R' el er
          show ?thesis
            by (simp add: ctor_Suc built_tree_def Let_def bvh_node_of_eq)
        qed
      qed
    qed
  qed
qed



lemma ctor_two:
  assumes "end_idx = start + 2" "end_idx \<le> length src"
  shows "\<exists>bx lines.
     bvh_node_ctor (Suc depth) srt src start end_idx time0 time1 g err
       = Some (if corner_less (axis_of (fst (random_int 0 2 g))) (src ! start) (src ! (start + 1))
               then BvhNode (src ! start) (src ! (start + 1)) bx
               else BvhNode (src ! (start + 1)) (src ! start) bx,
               snd (random_int 0 2 g), err @ lines)"
proof -
  let ?axis = "fst (random_int 0 2 g)"
  let ?cmp = "(if ?axis = 0 then box_x_compare else if ?axis = 1 then box_y_compare
               else box_z_compare)"
  have c: "fst (?cmp (src ! start) (src ! (start + 1)))
      = corner_less (axis_of ?axis) (src ! start) (src ! (start + 1))"
    by (rule comparator_corner)
  show ?thesis
  proof (cases "corner_less (axis_of ?axis) (src ! start) (src ! (start + 1))")
    case True
    then show ?thesis
      unfolding ctor_Suc using assms c by (simp add: Let_def bvh_node_of_eq)
  next
    case False
    then show ?thesis
      unfolding ctor_Suc using assms c by (simp add: Let_def bvh_node_of_eq)
  qed
qed

lemma ctor_many:
  assumes "start + 3 \<le> end_idx" "end_idx \<le> length src"
  shows "\<exists>lines.
     bvh_node_ctor (Suc depth) srt src start end_idx time0 time1 g err
       = (let objects = take start src
                  @ fst (srt (corner_less (axis_of (fst (random_int 0 2 g))))
                          (range_of src start end_idx))
                  @ drop end_idx src;
              mid = start + (end_idx - start) div 2
          in case bvh_node_ctor depth srt objects start mid time0 time1 (snd (random_int 0 2 g))
                    (err @ lines) of
               None \<Rightarrow> None
             | Some (left, g2, err2) \<Rightarrow>
                 (case bvh_node_ctor depth srt objects mid end_idx time0 time1 g2 err2 of
                    None \<Rightarrow> None
                  | Some (right, g3, err3) \<Rightarrow>
                      Some (fst (bvh_node_of left right time0 time1 err3), g3,
                            snd (bvh_node_of left right time0 time1 err3))))"
proof -
  let ?axis = "fst (random_int 0 2 g)"
  let ?cmp = "(if ?axis = 0 then box_x_compare else if ?axis = 1 then box_y_compare
               else box_z_compare)"
  have c: "(\<lambda>a b. fst (?cmp a b)) = corner_less (axis_of ?axis)"
    by (intro ext) (rule comparator_corner)
  have o: "fst (sort_range srt ?cmp src start end_idx)
      = take start src @ fst (srt (corner_less (axis_of ?axis)) (range_of src start end_idx))
          @ drop end_idx src"
    unfolding sort_range_fst c ..
  have ne: "end_idx - start \<noteq> 1" "end_idx - start \<noteq> 2" "\<not> end_idx < start"
    using assms by simp_all
  show ?thesis
    unfolding ctor_Suc o[symmetric] using ne assms(2)
    by (intro exI[of _ "snd (sort_range srt ?cmp src start end_idx)"]) (simp add: Let_def)
qed





lemma runner_post_boxes:
  "box_of runner (Fin 0) (Fin 0)
     = \<lparr>minimum = Vec3 (Fin (- 1)) (Fin (- 1)) (Fin (- 1)), maximum = Vec3 (Fin 1) (Fin 1) (Fin 1)\<rparr>"
  "box_of runner (Fin 1) (Fin 1)
     = \<lparr>minimum = Vec3 (Fin 9) (Fin (- 1)) (Fin (- 1)), maximum = Vec3 (Fin 11) (Fin 1) (Fin 1)\<rparr>"
  "box_of post time0 time1
     = \<lparr>minimum = Vec3 (Fin 4) (Fin (- 1)) (Fin (- 1)), maximum = Vec3 (Fin 6) (Fin 1) (Fin 1)\<rparr>"
  by (simp_all add: box_of_simps runner_def post_def moving_sphere_bounding_box_def
      sphere_bounding_box_def center_at_def surrounding_box_def vzero_def vsub_def vadd_def
      smul_def dsub_def Let_def)

lemma axis_rng_zero: "fst (random_int 0 2 rng_zero) = 0"
  by (simp add: random_int_def random_double_range_def random_double_def rng_zero_def dsub_def)

text \<open>
  C10. The comparator the constructor chooses compares the minimum corners of the boxes that
  the two hittables report for the times \<open>(0, 0)\<close>, on the coordinate of the axis drawn. Over
  a range of two, the left child is the first element exactly when this comparison holds of
  the first and the second; over a longer range, the two halves are built from the vector
  sorted by this comparison. The tree a construction builds (the children of every node and
  their order, the boxes of the nodes left out) does not depend on the window passed to the
  constructor.
\<close>

theorem comparator_ignores_window:
  "fst ((if axis = 0 then box_x_compare else if axis = 1 then box_y_compare
         else box_z_compare) a b)
     = dlt (vidx (minimum (box_of a (Fin 0) (Fin 0))) (axis_of axis))
           (vidx (minimum (if has_box a (Fin 0) (Fin 0) then box_of b (Fin 0) (Fin 0)
                           else aabb_default)) (axis_of axis))
   \<and> (end_idx = start + 2 \<and> end_idx \<le> length src \<longrightarrow>
        (\<exists>bx lines.
           bvh_node_ctor (Suc depth) srt src start end_idx time0 time1 g err
             = Some (if corner_less (axis_of (fst (random_int 0 2 g))) (src ! start)
                          (src ! (start + 1))
                     then BvhNode (src ! start) (src ! (start + 1)) bx
                     else BvhNode (src ! (start + 1)) (src ! start) bx,
                     snd (random_int 0 2 g), err @ lines)))
   \<and> (start + 3 \<le> end_idx \<and> end_idx \<le> length src \<longrightarrow>
        (\<exists>lines.
           bvh_node_ctor (Suc depth) srt src start end_idx time0 time1 g err
             = (let objects = take start src
                        @ fst (srt (corner_less (axis_of (fst (random_int 0 2 g))))
                                (range_of src start end_idx))
                        @ drop end_idx src;
                    mid = start + (end_idx - start) div 2
                in case bvh_node_ctor depth srt objects start mid time0 time1
                          (snd (random_int 0 2 g)) (err @ lines) of
                     None \<Rightarrow> None
                   | Some (left, g2, err2) \<Rightarrow>
                       (case bvh_node_ctor depth srt objects mid end_idx time0 time1 g2 err2 of
                          None \<Rightarrow> None
                        | Some (right, g3, err3) \<Rightarrow>
                            Some (fst (bvh_node_of left right time0 time1 err3), g3,
                                  snd (bvh_node_of left right time0 time1 err3))))))
   \<and> built_tree (bvh_node_ctor depth srt src start end_idx time0 time1 g err)
       = built_tree (bvh_node_ctor depth srt src start end_idx time0' time1' g err')"
proof (intro conjI impI)
  show "fst ((if axis = 0 then box_x_compare else if axis = 1 then box_y_compare
         else box_z_compare) a b)
     = dlt (vidx (minimum (box_of a (Fin 0) (Fin 0))) (axis_of axis))
           (vidx (minimum (if has_box a (Fin 0) (Fin 0) then box_of b (Fin 0) (Fin 0)
                           else aabb_default)) (axis_of axis))"
    unfolding comparator_corner corner_less_def ..
next
  assume "end_idx = start + 2 \<and> end_idx \<le> length src"
  then show "\<exists>bx lines.
           bvh_node_ctor (Suc depth) srt src start end_idx time0 time1 g err
             = Some (if corner_less (axis_of (fst (random_int 0 2 g))) (src ! start)
                          (src ! (start + 1))
                     then BvhNode (src ! start) (src ! (start + 1)) bx
                     else BvhNode (src ! (start + 1)) (src ! start) bx,
                     snd (random_int 0 2 g), err @ lines)"
    by (intro ctor_two) simp_all
next
  assume "start + 3 \<le> end_idx \<and> end_idx \<le> length src"
  then show "\<exists>lines.
           bvh_node_ctor (Suc depth) srt src start end_idx time0 time1 g err
             = (let objects = take start src
                        @ fst (srt (corner_less (axis_of (fst (random_int 0 2 g))))
                                (range_of src start end_idx))
                        @ drop end_idx src;
                    mid = start + (end_idx - start) div 2
                in case bvh_node_ctor depth srt objects start mid time0 time1
                          (snd (random_int 0 2 g)) (err @ lines) of
                     None \<Rightarrow> None
                   | Some (left, g2, err2) \<Rightarrow>
                       (case bvh_node_ctor depth srt objects mid end_idx time0 time1 g2 err2 of
                          None \<Rightarrow> None
                        | Some (right, g3, err3) \<Rightarrow>
                            Some (fst (bvh_node_of left right time0 time1 err3), g3,
                                  snd (bvh_node_of left right time0 time1 err3))))"
    by (intro ctor_many) simp_all
next
  show "built_tree (bvh_node_ctor depth srt src start end_idx time0 time1 g err)
       = built_tree (bvh_node_ctor depth srt src start end_idx time0' time1' g err')"
    by (rule ctor_window)
qed

theorem comparator_ignores_window_witness:
  "dlt (vidx (minimum (box_of post (Fin 1) (Fin 1))) 0)
       (vidx (minimum (box_of runner (Fin 1) (Fin 1))) 0)
   \<and> \<not> corner_less 0 post runner
   \<and> (\<exists>bx lines.
        bvh_node_ctor (Suc 0) sort_by [post, runner] 0 2 (Fin 1) (Fin 1) rng_zero []
          = Some (BvhNode runner post bx, snd (random_int 0 2 rng_zero), [] @ lines))"
proof -
  note T = comparator_ignores_window
    [where depth = 0 and srt = sort_by and src = "[post, runner]" and start = 0
      and end_idx = 2 and ?time0.0 = "Fin 1" and ?time1.0 = "Fin 1" and g = rng_zero
      and err = "[]"]
  have d: "dlt (vidx (minimum (box_of post (Fin 1) (Fin 1))) 0)
         (vidx (minimum (box_of runner (Fin 1) (Fin 1))) 0)"
    by (simp add: runner_post_boxes)
  have "has_box post (Fin 0) (Fin 0)"
    by (simp add: post_def has_box_simps)
  then have c: "\<not> corner_less 0 post runner"
    by (simp add: corner_less_def runner_post_boxes)
  have pre: "(2::nat) = 0 + 2 \<and> 2 \<le> length [post, runner]" by simp
  from T pre have "\<exists>bx lines.
      bvh_node_ctor (Suc 0) sort_by [post, runner] 0 2 (Fin 1) (Fin 1) rng_zero []
        = Some (if corner_less (axis_of (fst (random_int 0 2 rng_zero))) ([post, runner] ! 0)
                     ([post, runner] ! (0 + 1))
                then BvhNode ([post, runner] ! 0) ([post, runner] ! (0 + 1)) bx
                else BvhNode ([post, runner] ! (0 + 1)) ([post, runner] ! 0) bx,
                snd (random_int 0 2 rng_zero), [] @ lines)"
    by blast
  then have "\<exists>bx lines.
        bvh_node_ctor (Suc 0) sort_by [post, runner] 0 2 (Fin 1) (Fin 1) rng_zero []
          = Some (BvhNode runner post bx, snd (random_int 0 2 rng_zero), [] @ lines)"
    using c by (simp add: axis_rng_zero axis_of_def)
  with d c show ?thesis by blast
qed

subsection \<open>Repeated queries\<close>

lemma echoI:
  assumes "res = (b, rc1, g)" "res' = (b, rc2, g)" "b \<Longrightarrow> R rc1 rc2"
    "\<not> b \<Longrightarrow> rc1 = rc \<and> rc2 = rc'"
  shows "echo R rc rc' g res res'"
  using assms by (simp add: echo_def)

lemma echoE:
  assumes "echo R rc rc' g res res'"
  obtains b rc1 rc2 where "res = (b, rc1, g)" "res' = (b, rc2, g)" "b \<Longrightarrow> R rc1 rc2"
    "\<not> b \<Longrightarrow> rc1 = rc \<and> rc2 = rc'"
proof -
  obtain b rc1 g1 where r: "res = (b, rc1, g1)" by (cases res)
  obtain b' rc2 g2 where r': "res' = (b', rc2, g2)" by (cases res')
  from assms r r' have "b' = b" "g1 = g" "g2 = g" "b \<Longrightarrow> R rc1 rc2" "\<not> b \<Longrightarrow> rc1 = rc \<and> rc2 = rc'"
    by (simp_all add: echo_def)
  with r r' show ?thesis by (intro that[of b rc1 rc2]) simp_all
qed

lemma sphere_echo:
  "echo (=) rc rc' g (hit dflt (Sphere c rad m) r t_min t_max rc g)
     (hit dflt' (Sphere c rad m) r t_min t_max rc' g)"
  by (cases "find_root c rad r t_min t_max")
    (simp_all add: echo_def sphere_hit_def Let_def set_face_normal_def split: prod.splits)

lemma moving_sphere_echo:
  "echo same_but_uv rc rc' g (hit dflt (MovingSphere c0 c1 ta tb rad m) r t_min t_max rc g)
     (hit dflt' (MovingSphere c0 c1 ta tb rad m) r t_min t_max rc' g)"
  by (cases "find_root (center_at c0 c1 ta tb (tm r)) rad r t_min t_max")
    (simp_all add: echo_def moving_sphere_hit_def Let_def set_face_normal_def same_but_uv_def
      split: prod.splits)

lemma echo_weaken:
  "echo (=) rc rc' g res res' \<Longrightarrow> (\<And>a. R a a) \<Longrightarrow> echo R rc rc' g res res'"
  by (auto simp add: echo_def)

lemma hit_objects_echo:
  assumes t: "\<And>a b. R a b \<Longrightarrow> rec_t a = rec_t b"
    and mem: "\<forall>x\<in>set xs. \<forall>closest temp temp'.
      echo R temp temp' g (hit dflt x r t_min closest temp g) (hit dflt' x r t_min closest temp' g)"
  shows "(ha \<Longrightarrow> R rc rc') \<Longrightarrow>
     echo R rc rc' g (hit_objects dflt xs r t_min temp ha closest rc g)
       (hit_objects dflt' xs r t_min temp' ha closest rc' g)
     \<and> (ha \<longrightarrow> fst (hit_objects dflt xs r t_min temp ha closest rc g))"
  using mem
proof (induction xs arbitrary: temp temp' ha closest rc rc')
  case Nil
  then show ?case by (simp add: echo_def)
next
  case (Cons x xs)
  from Cons.prems(2) have
    "echo R temp temp' g (hit dflt x r t_min closest temp g) (hit dflt' x r t_min closest temp' g)"
    and xs: "\<forall>x\<in>set xs. \<forall>closest temp temp'.
      echo R temp temp' g (hit dflt x r t_min closest temp g) (hit dflt' x r t_min closest temp' g)"
    by simp_all
  then obtain b t1 t2 where h: "hit dflt x r t_min closest temp g = (b, t1, g)"
      "hit dflt' x r t_min closest temp' g = (b, t2, g)" "b \<Longrightarrow> R t1 t2"
      "\<not> b \<Longrightarrow> t1 = temp \<and> t2 = temp'"
    by (elim echoE) blast
  show ?case
  proof (cases b)
    case True
    with h(3) have R: "R t1 t2" by simp
    then have e: "rec_t t2 = rec_t t1" using t by simp
    have "echo R t1 t2 g (hit_objects dflt xs r t_min t1 True (rec_t t1) t1 g)
       (hit_objects dflt' xs r t_min t2 True (rec_t t1) t2 g)
     \<and> (True \<longrightarrow> fst (hit_objects dflt xs r t_min t1 True (rec_t t1) t1 g))"
      by (rule Cons.IH[OF _ xs]) (rule R)
    then have 1: "echo R t1 t2 g (hit_objects dflt (x # xs) r t_min temp ha closest rc g)
       (hit_objects dflt' (x # xs) r t_min temp' ha closest rc' g)"
      and 2: "fst (hit_objects dflt (x # xs) r t_min temp ha closest rc g)"
      using True h(1,2) e by simp_all
    from 1 2 have "echo R rc rc' g (hit_objects dflt (x # xs) r t_min temp ha closest rc g)
       (hit_objects dflt' (x # xs) r t_min temp' ha closest rc' g)"
      by (simp add: echo_def)
    with 2 show ?thesis by blast
  next
    case False
    have "echo R rc rc' g (hit_objects dflt xs r t_min t1 ha closest rc g)
       (hit_objects dflt' xs r t_min t2 ha closest rc' g)
     \<and> (ha \<longrightarrow> fst (hit_objects dflt xs r t_min t1 ha closest rc g))"
      by (rule Cons.IH[OF _ xs]) (rule Cons.prems(1))
    with False h(1,2) show ?thesis by simp
  qed
qed

lemma echo_hit:
  assumes t: "\<And>a b. R a b \<Longrightarrow> rec_t a = rec_t b"
    and s: "\<And>c rad m rc rc' t_max. echo R rc rc' g (hit dflt (Sphere c rad m) r t_min t_max rc g)
              (hit dflt' (Sphere c rad m) r t_min t_max rc' g)"
    and ms: "\<And>c0 c1 ta tb rad m rc rc' t_max. moving \<Longrightarrow>
              echo R rc rc' g (hit dflt (MovingSphere c0 c1 ta tb rad m) r t_min t_max rc g)
              (hit dflt' (MovingSphere c0 c1 ta tb rad m) r t_min t_max rc' g)"
  shows "no_medium h \<Longrightarrow> moving \<or> no_moving_sphere h \<Longrightarrow>
     echo R rc rc' g (hit dflt h r t_min t_max rc g) (hit dflt' h r t_min t_max rc' g)"
proof (induction h arbitrary: rc rc' t_max)
  case (Sphere c rad m)
  show ?case by (rule s)
next
  case (MovingSphere c0 c1 ta tb rad m)
  then have moving by simp
  then show ?case by (rule ms)
next
  case (ConstantMedium h ph d)
  then show ?case by simp
next
  case (HittableList xs)
  have mem: "\<forall>x\<in>set xs. \<forall>closest temp temp'.
      echo R temp temp' g (hit dflt x r t_min closest temp g) (hit dflt' x r t_min closest temp' g)"
  proof (intro ballI allI)
    fix x closest temp temp' assume x: "x \<in> set xs"
    with HittableList.prems have "no_medium x" "moving \<or> no_moving_sphere x" by auto
    then show "echo R temp temp' g (hit dflt x r t_min closest temp g)
        (hit dflt' x r t_min closest temp' g)"
      by (rule HittableList.IH[OF x])
  qed
  have "echo R rc rc' g (hit_objects dflt xs r t_min dflt False t_max rc g)
       (hit_objects dflt' xs r t_min dflt' False t_max rc' g)
     \<and> (False \<longrightarrow> fst (hit_objects dflt xs r t_min dflt False t_max rc g))"
    by (rule hit_objects_echo[OF t mem]) simp_all
  then show ?case by simp
next
  case (BvhNode l rt bx)
  then have pl: "no_medium l" "moving \<or> no_moving_sphere l"
    and pr: "no_medium rt" "moving \<or> no_moving_sphere rt"
    by auto
  show ?case
  proof (cases "aabb_hit bx r t_min t_max")
    case False
    then show ?thesis by (simp add: echo_def)
  next
    case True
    from BvhNode.IH(1)[OF pl, of rc rc' t_max]
    obtain b t1 t2 where h: "hit dflt l r t_min t_max rc g = (b, t1, g)"
      "hit dflt' l r t_min t_max rc' g = (b, t2, g)" "b \<Longrightarrow> R t1 t2"
      "\<not> b \<Longrightarrow> t1 = rc \<and> t2 = rc'"
      by (elim echoE) blast
    let ?c = "if b then rec_t t1 else t_max"
    have e: "(if b then rec_t t2 else t_max) = ?c" using h(3) t by auto
    from BvhNode.IH(2)[OF pr, of t1 t2 ?c]
    obtain b2 u1 u2 where k: "hit dflt rt r t_min ?c t1 g = (b2, u1, g)"
      "hit dflt' rt r t_min ?c t2 g = (b2, u2, g)" "b2 \<Longrightarrow> R u1 u2"
      "\<not> b2 \<Longrightarrow> u1 = t1 \<and> u2 = t2"
      by (elim echoE) blast
    have 1: "hit dflt (BvhNode l rt bx) r t_min t_max rc g = (b \<or> b2, u1, g)"
      using True h(1) k(1) by simp
    have 2: "hit dflt' (BvhNode l rt bx) r t_min t_max rc' g = (b \<or> b2, u2, g)"
      using True h(2) k(2) e by simp
    show ?thesis
    proof (rule echoI[OF 1 2])
      assume "b \<or> b2"
      then show "R u1 u2" using h(3) k(3,4) by (cases b2) auto
    next
      assume "\<not> (b \<or> b2)"
      then show "u1 = rc \<and> u2 = rc'" using h(4) k(4) by auto
    qed
  qed
qed

lemma no_medium_echo:
  assumes "no_medium h"
  shows "echo same_but_uv rc rc' g (hit dflt h r t_min t_max rc g) (hit dflt' h r t_min t_max rc' g)"
proof (rule echo_hit[where moving = True])
  show "rec_t a = rec_t b" if "same_but_uv a b" for a b
    using that by (simp add: same_but_uv_def)
  show "echo same_but_uv rc rc' g (hit dflt (Sphere c rad m) r t_min t_max rc g)
              (hit dflt' (Sphere c rad m) r t_min t_max rc' g)" for c rad m rc rc' t_max
    by (rule echo_weaken[OF sphere_echo]) (simp add: same_but_uv_def)
  show "echo same_but_uv rc rc' g (hit dflt (MovingSphere c0 c1 ta tb rad m) r t_min t_max rc g)
              (hit dflt' (MovingSphere c0 c1 ta tb rad m) r t_min t_max rc' g)"
    for c0 c1 ta tb rad m rc rc' t_max
    by (rule moving_sphere_echo)
  show "no_medium h" by (rule assms)
  show "True \<or> no_moving_sphere h" by simp
qed

lemma no_moving_sphere_echo:
  assumes "no_medium h" "no_moving_sphere h"
  shows "echo (=) rc rc' g (hit dflt h r t_min t_max rc g) (hit dflt' h r t_min t_max rc' g)"
proof (rule echo_hit[where moving = False])
  show "rec_t a = rec_t b" if "a = b" for a b :: hit_record
    using that by simp
  show "echo (=) rc rc' g (hit dflt (Sphere c rad m) r t_min t_max rc g)
              (hit dflt' (Sphere c rad m) r t_min t_max rc' g)" for c rad m rc rc' t_max
    by (rule sphere_echo)
  show "echo (=) rc rc' g (hit dflt (MovingSphere c0 c1 ta tb rad m) r t_min t_max rc g)
              (hit dflt' (MovingSphere c0 c1 ta tb rad m) r t_min t_max rc' g)"
    if False for c0 c1 ta tb rad m rc rc' t_max
    using that ..
  show "no_medium h" by (rule assms)
  show "False \<or> no_moving_sphere h" using assms(2) by simp
qed

lemma hit_objects_generator_free:
  assumes "\<forall>x\<in>set xs. generator_free dflt x"
  shows "\<exists>b rc'. \<forall>g. hit_objects dflt xs r t_min temp ha closest rc g = (b, rc', g)"
  using assms
proof (induction xs arbitrary: temp ha closest rc)
  case Nil
  show ?case by simp
next
  case (Cons x xs)
  from Cons.prems have "generator_free dflt x" by simp
  then obtain b temp' where h: "\<And>g. hit dflt x r t_min closest temp g = (b, temp', g)"
    unfolding generator_free_def by blast
  from Cons.prems have xs: "\<forall>x\<in>set xs. generator_free dflt x" by simp
  show ?case
  proof (cases b)
    case True
    from Cons.IH[OF xs, of temp' True "rec_t temp'" temp']
    obtain b2 rc2 where "\<And>g. hit_objects dflt xs r t_min temp' True (rec_t temp') temp' g = (b2, rc2, g)"
      by blast
    with h True show ?thesis by simp
  next
    case False
    from Cons.IH[OF xs, of temp' ha closest rc]
    obtain b2 rc2 where "\<And>g. hit_objects dflt xs r t_min temp' ha closest rc g = (b2, rc2, g)"
      by blast
    with h False show ?thesis by simp
  qed
qed

lemma no_medium_generator_free: "no_medium h \<Longrightarrow> generator_free dflt h"
proof (induction h)
  case (Sphere c rad m)
  show ?case unfolding generator_free_def
    by (auto simp add: case_prod_beta)
next
  case (MovingSphere c0 c1 t0 t1 rad m)
  show ?case unfolding generator_free_def
    by (auto simp add: case_prod_beta)
next
  case (ConstantMedium h ph d)
  then show ?case by simp
next
  case (HittableList xs)
  then have "\<forall>x\<in>set xs. generator_free dflt x" by simp
  then show ?case
    unfolding generator_free_def[of dflt "HittableList xs"]
    using hit_objects_generator_free[of xs dflt] by simp
next
  case (BvhNode l r' bx)
  then have l: "generator_free dflt l" and r: "generator_free dflt r'" by simp_all
  show ?case
    unfolding generator_free_def
  proof (intro allI)
    fix r t_min t_max rc
    show "\<exists>b rc'. \<forall>g. hit dflt (BvhNode l r' bx) r t_min t_max rc g = (b, rc', g)"
    proof (cases "aabb_hit bx r t_min t_max")
      case False
      then show ?thesis by auto
    next
      case True
      from l obtain hl rc1 where 1: "\<And>g. hit dflt l r t_min t_max rc g = (hl, rc1, g)"
        unfolding generator_free_def by blast
      from r obtain hr rc2 where 2: "\<And>g. hit dflt r' r t_min (if hl then rec_t rc1 else t_max) rc1 g = (hr, rc2, g)"
        unfolding generator_free_def by blast
      from True 1 2 show ?thesis by simp
    qed
  qed
qed

lemma sqrt_100: "sqrt 100 = 10"
  by (rule real_sqrt_unique) simp_all

lemma far_ray_roots:
  "find_root vzero (Fin 10) far_ray (dneg infinity) infinity = Some (Fin 10)"
  "find_root vzero (Fin 10) far_ray (dadd (Fin 10) (Fin (1 / 10000))) infinity = Some (Fin 30)"
  by (simp_all add: find_root_def Let_def far_ray_def vzero_def vsub_def dsub_def dot_def
      length_squared_def infinity_def sqrt_100)

lemma far_ray_boundary:
  "\<exists>rc1. hit dflt (Sphere vzero (Fin 10) 0) far_ray (dneg infinity) infinity rc g = (True, rc1, g)
      \<and> rec_t rc1 = Fin 10"
  "\<exists>rc2. hit dflt (Sphere vzero (Fin 10) 0) far_ray (dadd (Fin 10) (Fin (1 / 10000))) infinity rc g
        = (True, rc2, g) \<and> rec_t rc2 = Fin 30"
  using sphere_hit_Some[OF far_ray_roots(1)] sphere_hit_Some[OF far_ray_roots(2)]
  by blast+

lemma far_ray_length: "vlength (dir far_ray) = Fin 1"
  by (simp add: vlength_def length_squared_def far_ray_def)

lemma fog_ball_hit:
  assumes "0 < g 0" "- ln (g 0) \<le> 20"
  shows "\<exists>rc'. hit dflt fog_ball far_ray (Fin 0) infinity rc g = (True, rc', (\<lambda>n. g (Suc n)))
     \<and> rec_t rc' = Fin (10 - ln (g 0))"
proof -
  obtain rc1 where 1: "hit dflt (Sphere vzero (Fin 10) 0) far_ray (dneg infinity) infinity dflt g = (True, rc1, g)"
      and t1: "rec_t rc1 = Fin 10"
    using far_ray_boundary(1) by blast
  obtain rc2 where 2: "hit dflt (Sphere vzero (Fin 10) 0) far_ray (dadd (Fin 10) (Fin (1 / 10000))) infinity dflt g
        = (True, rc2, g)" and t2: "rec_t rc2 = Fin 30"
    using far_ray_boundary(2) by blast
  show ?thesis
    unfolding fog_ball_def constant_medium_def
    using assms 1 t1 2 t2
    by (simp del: hit.simps(1) add: medium_scatter_def far_ray_length random_double_def
        infinity_def dsub_def Let_def)
qed

lemma ln_half: "- ln (1 / 2 :: real) \<le> 20" "- ln (1 / 4 :: real) \<le> 20"
proof -
  have "ln (2::real) \<le> 2 - 1" by (rule ln_le_minus_one) simp
  moreover have "ln (4::real) \<le> 4 - 1" by (rule ln_le_minus_one) simp
  moreover have "ln (1 / 2 :: real) = - ln 2" "ln (1 / 4 :: real) = - ln 4"
    by (simp_all add: ln_div)
  ultimately show "- ln (1 / 2 :: real) \<le> 20" "- ln (1 / 4 :: real) \<le> 20" by simp_all
qed

lemma echo_repeatable:
  assumes "\<And>a. R a a"
    and "\<And>g. echo R rc rc g (hit dflt h r t_min t_max rc g) (hit dflt' h r t_min t_max rc g)"
  shows "repeatable R dflt dflt' h r t_min t_max rc g"
proof -
  from assms(2)[of g]
  obtain b rc1 rc2 where h: "hit dflt h r t_min t_max rc g = (b, rc1, g)"
    "hit dflt' h r t_min t_max rc g = (b, rc2, g)" "b \<Longrightarrow> R rc1 rc2"
    "\<not> b \<Longrightarrow> rc1 = rc \<and> rc2 = rc"
    by (elim echoE) blast
  then have "R rc1 rc2" using assms(1) by (cases b) auto
  with h(1,2) show ?thesis by (simp add: repeatable_def)
qed

lemma runner_through_list:
  "\<exists>rc'. hit dflt (HittableList [runner]) scenario_ray (Fin 0) infinity rc g = (True, rc', g)
     \<and> rec_u rc' = rec_u dflt"
proof -
  have c: "center_at vzero (Vec3 (Fin 10) (Fin 0) (Fin 0)) (Fin 0) (Fin 1) (tm scenario_ray) = vzero"
    by (simp add: center_at_def scenario_ray_def vzero_def vsub_def vadd_def smul_def dsub_def)
  show ?thesis
    by (simp add: runner_def moving_sphere_hit_def c scenario_root Let_def set_face_normal_def
        split: prod.splits)
qed

text \<open>
  C8, as stated, fails: two successive identical queries of a scene with a
  \<^verbatim>\<open>constant_medium\<close> draw different numbers from the generator and return records with
  different \<open>t\<close>. Without a medium the records can still differ: \<^verbatim>\<open>moving_sphere::hit\<close> does not
  set \<open>u\<close> and \<open>v\<close>, and through a \<^verbatim>\<open>hittable_list\<close> they are those of the uninitialised
  \<^verbatim>\<open>temp_rec\<close>.
\<close>

theorem repeated_query_with_medium_differs:
  "\<not> repeatable same_but_uv rec0 rec0 fog_ball far_ray (Fin 0) infinity rec0 rng_two
   \<and> \<not> repeatable (=) rec0 rec0 fog_ball far_ray (Fin 0) infinity rec0 rng_two
   \<and> \<not> repeatable (=) rec0 rec_other (HittableList [runner]) scenario_ray (Fin 0) infinity rec0
         rng_two"
proof -
  obtain rc1 where 1: "hit rec0 fog_ball far_ray (Fin 0) infinity rec0 rng_two
      = (True, rc1, (\<lambda>n. rng_two (Suc n)))"
    and t1: "rec_t rc1 = Fin (10 - ln (rng_two 0))"
    using fog_ball_hit[of rng_two rec0 rec0] ln_half by (auto simp add: rng_two_def)
  obtain rc2 where 2: "hit rec0 fog_ball far_ray (Fin 0) infinity rec0 (\<lambda>n. rng_two (Suc n))
      = (True, rc2, (\<lambda>n. rng_two (Suc (Suc n))))"
    and t2: "rec_t rc2 = Fin (10 - ln (rng_two (Suc 0)))"
    using fog_ball_hit[of "\<lambda>n. rng_two (Suc n)" rec0 rec0] ln_half
    by (auto simp add: rng_two_def)
  have d: "rec_t rc1 \<noteq> rec_t rc2"
    unfolding t1 t2 by (simp add: rng_two_def)
  then have "rc1 \<noteq> rc2" by auto
  with d have a: "\<not> repeatable same_but_uv rec0 rec0 fog_ball far_ray (Fin 0) infinity rec0 rng_two"
    "\<not> repeatable (=) rec0 rec0 fog_ball far_ray (Fin 0) infinity rec0 rng_two"
    unfolding repeatable_def by (simp_all add: 1 2 same_but_uv_def)
  obtain u1 where 3: "hit rec0 (HittableList [runner]) scenario_ray (Fin 0) infinity rec0 rng_two
      = (True, u1, rng_two)" and v1: "rec_u u1 = rec_u rec0"
    using runner_through_list[of rec0 rec0 rng_two] by blast
  obtain u2 where 4: "hit rec_other (HittableList [runner]) scenario_ray (Fin 0) infinity rec0 rng_two
      = (True, u2, rng_two)" and v2: "rec_u u2 = rec_u rec_other"
    using runner_through_list[of rec_other rec0 rng_two] by blast
  have "rec_u u1 \<noteq> rec_u u2"
    unfolding v1 v2 by (simp add: rec_other_def rec0_def)
  then have "u1 \<noteq> u2" by auto
  then have "\<not> repeatable (=) rec0 rec_other (HittableList [runner]) scenario_ray (Fin 0) infinity
      rec0 rng_two"
    unfolding repeatable_def by (simp add: 3 4 del: hit.simps)
  with a show ?thesis by simp
qed

text \<open>
  C8, amended: for every scene without a \<^verbatim>\<open>constant_medium\<close>, every ray and every interval,
  \<^verbatim>\<open>hit\<close> neither reads nor advances the generator, and two successive identical queries
  return the same outcome and records that agree in \<open>t\<close>, \<open>p\<close>, \<open>normal\<close>, \<open>front_face\<close> and
  \<open>mat_ptr\<close>, whatever the uninitialised records of the two queries hold; in a scene without
  a \<^verbatim>\<open>moving_sphere\<close> the two records are equal.
\<close>

theorem repeated_query_without_medium:
  "no_medium h \<Longrightarrow>
     generator_free dflt h
     \<and> repeatable same_but_uv dflt dflt' h r t_min t_max rc g
     \<and> (no_moving_sphere h \<longrightarrow> repeatable (=) dflt dflt' h r t_min t_max rc g)"
proof (intro conjI impI)
  assume n: "no_medium h"
  show "generator_free dflt h" using n by (rule no_medium_generator_free)
  show "repeatable same_but_uv dflt dflt' h r t_min t_max rc g"
    by (rule echo_repeatable) (simp_all add: same_but_uv_def no_medium_echo[OF n])
  assume "no_moving_sphere h"
  then show "repeatable (=) dflt dflt' h r t_min t_max rc g"
    by (intro echo_repeatable no_moving_sphere_echo n) simp_all
qed

theorem repeated_query_without_medium_witness:
  "no_medium (HittableList [unit_sphere, sphere_at_3])
   \<and> no_moving_sphere (HittableList [unit_sphere, sphere_at_3])
   \<and> repeatable same_but_uv rec0 rec_other (HittableList [unit_sphere, sphere_at_3]) scenario_ray
       (Fin 0) infinity rec0 rng_two
   \<and> repeatable (=) rec0 rec_other (HittableList [unit_sphere, sphere_at_3]) scenario_ray
       (Fin 0) infinity rec0 rng_two"
  using repeated_query_without_medium
    [of "HittableList [unit_sphere, sphere_at_3]" rec0 rec_other scenario_ray "Fin 0" infinity rec0
      rng_two]
  by (simp add: unit_sphere_def sphere_at_3_def)

subsection \<open>The parameter of a hit lies within the interval\<close>

















subsection \<open>Normals of hits\<close>










subsection \<open>hittable\_list::hit returns the nearest hit\<close>

lemma is_finE: "is_fin a \<Longrightarrow> (\<And>x. a = Fin x \<Longrightarrow> P) \<Longrightarrow> P"
  by (cases a) simp_all

lemma dmul_self: "dmul a a = NaN \<or> dmul a a = PInf \<or> (\<exists>x\<ge>0. dmul a a = Fin x)"
  by (cases a) simp_all

lemma dadd_nonneg:
  assumes "a = NaN \<or> a = PInf \<or> (\<exists>x\<ge>0. a = Fin x)" "b = NaN \<or> b = PInf \<or> (\<exists>x\<ge>0. b = Fin x)"
  shows "dadd a b = NaN \<or> dadd a b = PInf \<or> (\<exists>x\<ge>0. dadd a b = Fin x)"
  using assms by (cases a; cases b) auto

lemma length_squared_nonneg:
  "length_squared v = NaN \<or> length_squared v = PInf \<or> (\<exists>x\<ge>0. length_squared v = Fin x)"
  unfolding length_squared_def by (intro dadd_nonneg dmul_self)

lemma dsqrt_nonneg: "dsqrt d = NaN \<or> dsqrt d = PInf \<or> (\<exists>x\<ge>0. dsqrt d = Fin x)"
  by (cases d) simp_all

lemma quotients_in_order:
  assumes "s = NaN \<or> s = PInf \<or> (\<exists>y\<ge>0. s = Fin y)"
    and "a = NaN \<or> a = PInf \<or> (\<exists>x\<ge>0. a = Fin x)"
    and "is_fin (ddiv (dsub nb s) a)" "is_fin (ddiv (dadd nb s) a)"
  shows "val (ddiv (dsub nb s) a) \<le> val (ddiv (dadd nb s) a)"
  using assms
  by (cases nb; cases s; cases a)
    (auto simp add: dsub_def divide_right_mono split: if_splits)

lemma roots_in_order:
  assumes "is_fin (smaller_root c rad r)" "is_fin (larger_root c rad r)"
  shows "val (smaller_root c rad r) \<le> val (larger_root c rad r)"
  using assms unfolding smaller_root_def larger_root_def quad_a_def
  by (intro quotients_in_order dsqrt_nonneg length_squared_nonneg)

lemma find_root_first:
  assumes "settled c rad r"
  shows "find_root c rad r t_min t_max =
     (case first_root c rad r t_min of
        None \<Rightarrow> None
      | Some x \<Rightarrow> if dlt t_max (Fin x) then None else Some (Fin x))"
proof (cases "dlt (discriminant_of c rad r) (Fin 0)")
  case True
  then show ?thesis by (simp add: find_root_eq first_root_def)
next
  case False
  with assms have f: "is_fin (smaller_root c rad r)" "is_fin (larger_root c rad r)"
    by (simp_all add: settled_def)
  then obtain x1 x2 where x: "smaller_root c rad r = Fin x1" "larger_root c rad r = Fin x2"
    by (elim is_finE) blast
  from roots_in_order[OF f] x have le: "x1 \<le> x2" by simp
  show ?thesis
    using False le
    by (cases t_min; cases t_max) (auto simp add: find_root_eq first_root_def out_of_range_def x)
qed

lemma answers_None: "answers dflt h r t_min None \<Longrightarrow> t_max \<noteq> NaN \<Longrightarrow>
    hit dflt h r t_min t_max rc g = (False, rc, g)"
  by (simp add: answers_def)

lemma answers_far: "answers dflt h r t_min (Some x) \<Longrightarrow> t_max \<noteq> NaN \<Longrightarrow> dlt t_max (Fin x) \<Longrightarrow>
    hit dflt h r t_min t_max rc g = (False, rc, g)"
  by (auto simp add: answers_def)

lemma answers_near: "answers dflt h r t_min (Some x) \<Longrightarrow> t_max \<noteq> NaN \<Longrightarrow> \<not> dlt t_max (Fin x) \<Longrightarrow>
    \<exists>rc'. hit dflt h r t_min t_max rc g = (True, rc', g) \<and> rec_t rc' = Fin x"
  by (auto simp add: answers_def)

lemma moving_sphere_hit_None:
  "find_root (center_at c0 c1 t0 t1 (tm r)) rad r t_min t_max = None \<Longrightarrow>
     hit dflt (MovingSphere c0 c1 t0 t1 rad m) r t_min t_max rc g = (False, rc, g)"
  by (simp add: moving_sphere_hit_def Let_def)

lemma moving_sphere_hit_Some:
  "find_root (center_at c0 c1 t0 t1 (tm r)) rad r t_min t_max = Some x \<Longrightarrow>
     \<exists>rc'. hit dflt (MovingSphere c0 c1 t0 t1 rad m) r t_min t_max rc g = (True, rc', g)
       \<and> rec_t rc' = x \<and> rec_p rc' = ray_at r x"
  by (simp add: moving_sphere_hit_def Let_def set_face_normal_def split: prod.splits)

lemma sphere_answers:
  assumes w: "settled c rad r"
  shows "answers dflt (Sphere c rad m) r t_min (first_root c rad r t_min)"
  unfolding answers_def
proof (intro allI impI)
  fix t_max rc g
  show "case first_root c rad r t_min of
          None \<Rightarrow> hit dflt (Sphere c rad m) r t_min t_max rc g = (False, rc, g)
        | Some x \<Rightarrow>
            if dlt t_max (Fin x) then hit dflt (Sphere c rad m) r t_min t_max rc g = (False, rc, g)
            else \<exists>rc'. hit dflt (Sphere c rad m) r t_min t_max rc g = (True, rc', g)
                   \<and> rec_t rc' = Fin x"
  proof (cases "first_root c rad r t_min")
    case None
    then have "find_root c rad r t_min t_max = None"
      by (simp add: find_root_first[OF w])
    with None show ?thesis by (simp add: sphere_hit_None del: hit.simps)
  next
    case (Some x)
    show ?thesis
    proof (cases "dlt t_max (Fin x)")
      case True
      with Some have "find_root c rad r t_min t_max = None"
        by (simp add: find_root_first[OF w])
      with Some True show ?thesis by (simp add: sphere_hit_None del: hit.simps)
    next
      case False
      with Some have "find_root c rad r t_min t_max = Some (Fin x)"
        by (simp add: find_root_first[OF w])
      from sphere_hit_Some[OF this, of dflt m rc g] Some False show ?thesis
        by (auto simp del: hit.simps)
    qed
  qed
qed

lemma moving_sphere_answers:
  assumes w: "settled (center_at c0 c1 t0 t1 (tm r)) rad r"
  shows "answers dflt (MovingSphere c0 c1 t0 t1 rad m) r t_min
           (first_root (center_at c0 c1 t0 t1 (tm r)) rad r t_min)"
  unfolding answers_def
proof (intro allI impI)
  fix t_max rc g
  let ?c = "center_at c0 c1 t0 t1 (tm r)"
  let ?h = "MovingSphere c0 c1 t0 t1 rad m"
  show "case first_root ?c rad r t_min of
          None \<Rightarrow> hit dflt ?h r t_min t_max rc g = (False, rc, g)
        | Some x \<Rightarrow>
            if dlt t_max (Fin x) then hit dflt ?h r t_min t_max rc g = (False, rc, g)
            else \<exists>rc'. hit dflt ?h r t_min t_max rc g = (True, rc', g) \<and> rec_t rc' = Fin x"
  proof (cases "first_root ?c rad r t_min")
    case None
    then have "find_root ?c rad r t_min t_max = None"
      by (simp add: find_root_first[OF w])
    with None show ?thesis by (simp add: moving_sphere_hit_None del: hit.simps)
  next
    case (Some x)
    show ?thesis
    proof (cases "dlt t_max (Fin x)")
      case True
      with Some have "find_root ?c rad r t_min t_max = None"
        by (simp add: find_root_first[OF w])
      with Some True show ?thesis by (simp add: moving_sphere_hit_None del: hit.simps)
    next
      case False
      with Some have "find_root ?c rad r t_min t_max = Some (Fin x)"
        by (simp add: find_root_first[OF w])
      from moving_sphere_hit_Some[OF this, of dflt m rc g] Some False show ?thesis
        by (auto simp del: hit.simps)
    qed
  qed
qed

lemma least_None_right [simp]: "least a None = a"
  by (cases a) simp_all

lemma hit_objects_answers:
  assumes mem: "\<forall>x\<in>set xs. answers dflt x r t_min (nearest x r t_min)"
  shows "closest \<noteq> NaN \<Longrightarrow>
     (case foldr least (map (\<lambda>x. nearest x r t_min) xs) None of
        None \<Rightarrow> hit_objects dflt xs r t_min temp ha closest rc g = (ha, rc, g)
      | Some m \<Rightarrow>
          if dlt closest (Fin m)
          then hit_objects dflt xs r t_min temp ha closest rc g = (ha, rc, g)
          else (\<exists>rc'. hit_objects dflt xs r t_min temp ha closest rc g = (True, rc', g)
                  \<and> rec_t rc' = Fin m))"
  using mem
proof (induction xs arbitrary: temp ha closest rc)
  case Nil
  show ?case by simp
next
  case (Cons x xs)
  let ?F = "nearest x r t_min"
  let ?R = "foldr least (map (\<lambda>x. nearest x r t_min) xs) None"
  have ax: "answers dflt x r t_min ?F" using Cons.prems(2) by simp
  have mem': "\<forall>x\<in>set xs. answers dflt x r t_min (nearest x r t_min)"
    using Cons.prems(2) by simp
  note IH = Cons.IH[OF _ mem']
  have miss: "hit dflt x r t_min closest temp g = (False, temp, g) \<Longrightarrow>
      hit_objects dflt (x # xs) r t_min temp ha closest rc g
        = hit_objects dflt xs r t_min temp ha closest rc g"
    by simp
  show ?case
  proof (cases "\<exists>a. ?F = Some a \<and> \<not> dlt closest (Fin a)")
    case True
    then obtain a where a: "?F = Some a" "\<not> dlt closest (Fin a)" by blast
    from answers_near[OF ax[unfolded a(1)] Cons.prems(1) a(2), of temp g]
    obtain temp' where h: "hit dflt x r t_min closest temp g = (True, temp', g)"
      and t: "rec_t temp' = Fin a" by blast
    have step: "hit_objects dflt (x # xs) r t_min temp ha closest rc g
        = hit_objects dflt xs r t_min temp' True (Fin a) temp' g"
      using h t by simp
    from IH[of "Fin a" temp' True temp']
    have R: "case ?R of
        None \<Rightarrow> hit_objects dflt xs r t_min temp' True (Fin a) temp' g = (True, temp', g)
      | Some m \<Rightarrow>
          if dlt (Fin a) (Fin m)
          then hit_objects dflt xs r t_min temp' True (Fin a) temp' g = (True, temp', g)
          else (\<exists>rc'. hit_objects dflt xs r t_min temp' True (Fin a) temp' g = (True, rc', g)
                  \<and> rec_t rc' = Fin m)"
      by simp
    show ?thesis
    proof (cases ?R)
      case None
      with R a t show ?thesis unfolding step by simp
    next
      case (Some m)
      show ?thesis
      proof (cases "a < m")
        case True
        with R Some a t show ?thesis unfolding step by (simp add: min_def)
      next
        case False
        then have "\<not> dlt closest (Fin m)"
          using a(2) by (cases closest) simp_all
        with False R Some a show ?thesis unfolding step by (auto simp add: min_def)
      qed
    qed
  next
    case False
    have h: "hit dflt x r t_min closest temp g = (False, temp, g)"
    proof (cases ?F)
      case None
      with ax show ?thesis using Cons.prems(1) by (simp add: answers_None)
    next
      case (Some a)
      with False have "dlt closest (Fin a)" by simp
      with ax Some show ?thesis using Cons.prems(1) by (simp add: answers_far)
    qed
    note R = IH[OF Cons.prems(1), of temp ha rc]
    show ?thesis
    proof (cases ?F)
      case None
      with R show ?thesis unfolding miss[OF h] by simp
    next
      case (Some a)
      with False have far: "dlt closest (Fin a)" by simp
      show ?thesis
      proof (cases ?R)
        case None
        with R Some far show ?thesis unfolding miss[OF h] by simp
      next
        case Rm: (Some m)
        show ?thesis
        proof (cases "dlt closest (Fin m)")
          case True
          with R Rm Some far show ?thesis unfolding miss[OF h] by (simp add: min_def)
        next
          case nf: False
          then have "m < a" using far Cons.prems(1) by (cases closest) simp_all
          with R Rm Some nf show ?thesis unfolding miss[OF h] by (simp add: min_def)
        qed
      qed
    qed
  qed
qed

lemma tame_answers:
  "tame r h \<Longrightarrow> answers dflt h r t_min (nearest h r t_min)"
proof (induction h)
  case (Sphere c rad m)
  then show ?case using sphere_answers by simp
next
  case (MovingSphere c0 c1 t0 t1 rad m)
  then show ?case using moving_sphere_answers by simp
next
  case (ConstantMedium h ph d)
  then show ?case by simp
next
  case (BvhNode l rt bx)
  then show ?case by simp
next
  case (HittableList xs)
  then have mem: "\<forall>x\<in>set xs. answers dflt x r t_min (nearest x r t_min)" by simp
  show ?case
    unfolding answers_def
  proof (intro allI impI)
    fix t_max rc g
    assume "t_max \<noteq> NaN"
    from hit_objects_answers[OF mem this, of dflt False rc g]
    show "case nearest (HittableList xs) r t_min of
          None \<Rightarrow> hit dflt (HittableList xs) r t_min t_max rc g = (False, rc, g)
        | Some x \<Rightarrow>
            if dlt t_max (Fin x)
            then hit dflt (HittableList xs) r t_min t_max rc g = (False, rc, g)
            else \<exists>rc'. hit dflt (HittableList xs) r t_min t_max rc g = (True, rc', g)
                   \<and> rec_t rc' = Fin x"
      by (auto split: option.splits)
  qed
qed

lemma answers_hit_True:
  assumes "answers dflt h r t_min F" "t_max \<noteq> NaN"
    "hit dflt h r t_min t_max rc g = (True, rc', g')"
  shows "\<exists>x. F = Some x \<and> \<not> dlt t_max (Fin x) \<and> rec_t rc' = Fin x \<and> g' = g"
proof (cases F)
  case None
  with answers_None[OF assms(1)[unfolded None] assms(2), of rc g] assms(3) show ?thesis by simp
next
  case (Some x)
  show ?thesis
  proof (cases "dlt t_max (Fin x)")
    case True
    with answers_far[OF assms(1)[unfolded Some] assms(2), of rc g] assms(3) show ?thesis by simp
  next
    case False
    with answers_near[OF assms(1)[unfolded Some] assms(2), of rc g] assms(3) Some
    show ?thesis by auto
  qed
qed

lemma answers_fst:
  assumes "answers dflt h r t_min F" "t_max \<noteq> NaN"
  shows "fst (hit dflt h r t_min t_max rc g) = (\<exists>x. F = Some x \<and> \<not> dlt t_max (Fin x))"
proof (cases F)
  case None
  with answers_None[OF assms(1)[unfolded None] assms(2), of rc g] show ?thesis by simp
next
  case (Some x)
  show ?thesis
  proof (cases "dlt t_max (Fin x)")
    case True
    with answers_far[OF assms(1)[unfolded Some] assms(2), of rc g] Some show ?thesis by simp
  next
    case False
    with answers_near[OF assms(1)[unfolded Some] assms(2), of rc g] Some
    show ?thesis by auto
  qed
qed

lemma foldr_least_le:
  "foldr least fs None = Some m \<Longrightarrow> Some a \<in> set fs \<Longrightarrow> m \<le> a"
proof (induction fs arbitrary: m)
  case Nil
  then show ?case by simp
next
  case (Cons f fs)
  show ?case
  proof (cases "foldr least fs None")
    case None
    have "Some a \<notin> set fs"
    proof
      assume "Some a \<in> set fs"
      then show False using None by (induction fs) (auto elim: least.elims)
    qed
    with Cons.prems None show ?thesis by auto
  next
    case (Some k)
    with Cons.prems show ?thesis
      by (cases f) (auto dest: Cons.IH[OF Some])
  qed
qed

lemma foldr_least_mem:
  "foldr least fs None = Some m \<Longrightarrow> Some m \<in> set fs"
proof (induction fs arbitrary: m)
  case Nil
  then show ?case by simp
next
  case (Cons f fs)
  show ?case
  proof (cases "foldr least fs None")
    case None
    with Cons.prems show ?thesis by simp
  next
    case (Some k)
    with Cons.prems Cons.IH[OF Some] show ?thesis
      by (cases f) (auto simp add: min_def split: if_splits)
  qed
qed

lemma least_commute: "least a (least b c) = least b (least a c)"
  by (cases a; cases b; cases c) (simp_all add: min.left_commute)

lemma foldr_least_perm:
  assumes "mset fs = mset fs'"
  shows "foldr least fs None = foldr least fs' None"
proof -
  have "fold least (rev fs) = fold least (rev fs')"
    by (rule fold_multiset_equiv) (use assms in \<open>auto simp add: fun_eq_iff least_commute\<close>)
  then show ?thesis by (simp add: foldr_conv_fold)
qed

lemma nearest_list_perm:
  "mset ys = mset xs \<Longrightarrow> nearest (HittableList ys) r t_min = nearest (HittableList xs) r t_min"
  by (simp add: foldr_least_perm)

lemma scenario_hit_mat:
  "find_root c rad r t_min t_max = Some x \<Longrightarrow>
     \<exists>rc'. hit dflt (Sphere c rad m) r t_min t_max rc g = (True, rc', g)
       \<and> rec_t rc' = x \<and> mat_ptr rc' = m"
  by (simp add: sphere_hit_def Let_def set_face_normal_def split: prod.splits)

lemma scenario_root_closest: "find_root vzero (Fin 1) scenario_ray (Fin 0) (Fin 4) = Some (Fin 4)"
  by (simp add: find_root_def Let_def scenario_ray_def vzero_def vsub_def dsub_def dot_def
      length_squared_def sqrt_16)

text \<open>
  C2, as stated, fails: when two members are hit at the same \<open>t\<close> the later member replaces
  the record of the earlier one, so the returned record depends on the insertion order.
\<close>

theorem tie_goes_to_the_later_member:
  "\<exists>rc1 rc2.
      hit rec0 (HittableList [unit_sphere, red_sphere]) scenario_ray (Fin 0) infinity rec0 rng_half
        = (True, rc1, rng_half)
    \<and> hit rec0 (HittableList [red_sphere, unit_sphere]) scenario_ray (Fin 0) infinity rec0 rng_half
        = (True, rc2, rng_half)
    \<and> mat_ptr rc1 = 1 \<and> mat_ptr rc2 = 0 \<and> rc1 \<noteq> rc2"
proof -
  obtain a where a: "hit rec0 (Sphere vzero (Fin 1) 0) scenario_ray (Fin 0) infinity rec0 rng_half
      = (True, a, rng_half)" "rec_t a = Fin 4"
    using scenario_hit_mat[OF scenario_root] by blast
  obtain b where b: "hit rec0 (Sphere vzero (Fin 1) 1) scenario_ray (Fin 0) (Fin 4) a rng_half
      = (True, b, rng_half)" "mat_ptr b = 1"
    using scenario_hit_mat[OF scenario_root_closest] by blast
  obtain c where c: "hit rec0 (Sphere vzero (Fin 1) 1) scenario_ray (Fin 0) infinity rec0 rng_half
      = (True, c, rng_half)" "rec_t c = Fin 4"
    using scenario_hit_mat[OF scenario_root] by blast
  obtain d where d: "hit rec0 (Sphere vzero (Fin 1) 0) scenario_ray (Fin 0) (Fin 4) c rng_half
      = (True, d, rng_half)" "mat_ptr d = 0"
    using scenario_hit_mat[OF scenario_root_closest] by blast
  have 1: "hit rec0 (HittableList [unit_sphere, red_sphere]) scenario_ray (Fin 0) infinity rec0
      rng_half = (True, b, rng_half)"
    using a b by (simp add: unit_sphere_def red_sphere_def del: hit.simps(1))
  have 2: "hit rec0 (HittableList [red_sphere, unit_sphere]) scenario_ray (Fin 0) infinity rec0
      rng_half = (True, d, rng_half)"
    using c d by (simp add: unit_sphere_def red_sphere_def del: hit.simps(1))
  have "b \<noteq> d" using b(2) d(2) by auto
  with 1 2 b(2) d(2) show ?thesis by blast
qed

text \<open>
  C2, amended: for every ray, every list of spheres and moving spheres (and lists of them)
  for each of which the discriminant computed for the ray is negative or the two roots
  computed are finite, and every interval whose upper bound is not NaN: if
  \<^verbatim>\<open>hittable_list::hit\<close> returns true, the returned \<open>t\<close> is at or below the \<open>t\<close> of every
  member's accepted hit in that interval and is the \<open>t\<close> of some member's hit; and the
  hit/no-hit outcome and the returned \<open>t\<close> are the same for every permutation of the members.
\<close>

theorem list_hit_is_nearest:
  assumes "\<forall>x\<in>set xs. tame r x" "t_max \<noteq> NaN"
  shows "(\<forall>rc' g'. hit dflt (HittableList xs) r t_min t_max rc g = (True, rc', g') \<longrightarrow>
           (\<forall>x\<in>set xs. \<forall>rc0 g0 rcx gx.
               hit dflt x r t_min t_max rc0 g0 = (True, rcx, gx) \<longrightarrow> dle (rec_t rc') (rec_t rcx))
           \<and> (\<exists>x\<in>set xs. \<exists>rcx. hit dflt x r t_min t_max rc g = (True, rcx, g)
                  \<and> rec_t rcx = rec_t rc'))
       \<and> (\<forall>ys. mset ys = mset xs \<longrightarrow>
             fst (hit dflt (HittableList ys) r t_min t_max rc g)
               = fst (hit dflt (HittableList xs) r t_min t_max rc g)
             \<and> (fst (hit dflt (HittableList xs) r t_min t_max rc g) \<longrightarrow>
                  rec_t (fst (snd (hit dflt (HittableList ys) r t_min t_max rc g)))
                    = rec_t (fst (snd (hit dflt (HittableList xs) r t_min t_max rc g)))))"
proof (intro conjI allI impI)
  fix rc' g'
  assume h: "hit dflt (HittableList xs) r t_min t_max rc g = (True, rc', g')"
  have pl: "tame r (HittableList xs)" using assms(1) by simp
  from answers_hit_True[OF tame_answers[OF pl] assms(2) h]
  obtain m where m: "nearest (HittableList xs) r t_min = Some m" "\<not> dlt t_max (Fin m)"
    "rec_t rc' = Fin m" by blast
  show "\<forall>x\<in>set xs. \<forall>rc0 g0 rcx gx.
      hit dflt x r t_min t_max rc0 g0 = (True, rcx, gx) \<longrightarrow> dle (rec_t rc') (rec_t rcx)"
  proof (intro ballI allI impI)
    fix x rc0 g0 rcx gx
    assume x: "x \<in> set xs" and hx: "hit dflt x r t_min t_max rc0 g0 = (True, rcx, gx)"
    from x assms(1) have "tame r x" by simp
    from answers_hit_True[OF tame_answers[OF this] assms(2) hx]
    obtain a where a: "nearest x r t_min = Some a" "rec_t rcx = Fin a" by blast
    from a(1) x have "Some a \<in> set (map (\<lambda>x. nearest x r t_min) xs)" by force
    moreover from m(1) have "foldr least (map (\<lambda>x. nearest x r t_min) xs) None = Some m"
      by simp
    ultimately have "m \<le> a" by (rule foldr_least_le[rotated])
    then show "dle (rec_t rc') (rec_t rcx)" by (simp add: m(3) a(2))
  qed
  from m(1) have "foldr least (map (\<lambda>x. nearest x r t_min) xs) None = Some m" by simp
  then have "Some m \<in> set (map (\<lambda>x. nearest x r t_min) xs)"
    by (rule foldr_least_mem)
  then obtain x where x: "x \<in> set xs" "nearest x r t_min = Some m" by auto
  from x(1) assms(1) have "tame r x" by simp
  from tame_answers[OF this, of dflt t_min]
  have "answers dflt x r t_min (Some m)" unfolding x(2) .
  from answers_near[OF this assms(2) m(2), of rc g]
  obtain rcx where "hit dflt x r t_min t_max rc g = (True, rcx, g)" "rec_t rcx = Fin m"
    by blast
  with x(1) m(3) show "\<exists>x\<in>set xs. \<exists>rcx. hit dflt x r t_min t_max rc g = (True, rcx, g)
      \<and> rec_t rcx = rec_t rc'"
    by auto
next
  fix ys :: "hittable list"
  assume p: "mset ys = mset xs"
  then have "set ys = set xs" by (rule mset_eq_setD)
  with assms(1) have ply: "tame r (HittableList ys)" by simp
  have plx: "tame r (HittableList xs)" using assms(1) by simp
  note ay = tame_answers[OF ply, of dflt t_min]
  note ax = tame_answers[OF plx, of dflt t_min]
  have n: "nearest (HittableList ys) r t_min = nearest (HittableList xs) r t_min"
    using p by (rule nearest_list_perm)
  show "fst (hit dflt (HittableList ys) r t_min t_max rc g)
      = fst (hit dflt (HittableList xs) r t_min t_max rc g)"
    unfolding answers_fst[OF ay assms(2)] answers_fst[OF ax assms(2)] n ..
  assume f: "fst (hit dflt (HittableList xs) r t_min t_max rc g)"
  then obtain m where m: "nearest (HittableList xs) r t_min = Some m" "\<not> dlt t_max (Fin m)"
    unfolding answers_fst[OF ax assms(2)] by blast
  from ax have ax': "answers dflt (HittableList xs) r t_min (Some m)" unfolding m(1) .
  from ay have ay': "answers dflt (HittableList ys) r t_min (Some m)" unfolding n m(1) .
  from answers_near[OF ax' assms(2) m(2), of rc g] answers_near[OF ay' assms(2) m(2), of rc g]
  show "rec_t (fst (snd (hit dflt (HittableList ys) r t_min t_max rc g)))
      = rec_t (fst (snd (hit dflt (HittableList xs) r t_min t_max rc g)))"
    by auto
qed

lemma behind_roots:
  "find_root (Vec3 (Fin 0) (Fin 0) (Fin 3)) (Fin 1) scenario_ray (Fin 0) infinity = Some (Fin 7)"
  "find_root vzero (Fin 1) scenario_ray (Fin 0) (Fin 7) = Some (Fin 4)"
  by (simp_all add: find_root_def Let_def scenario_ray_def vzero_def vsub_def dsub_def dot_def
      length_squared_def infinity_def sqrt_16)

lemma behind_quadratic:
  "smaller_root (Vec3 (Fin 0) (Fin 0) (Fin 3)) (Fin 1) scenario_ray = Fin 7"
  "larger_root (Vec3 (Fin 0) (Fin 0) (Fin 3)) (Fin 1) scenario_ray = Fin 9"
  by (simp_all add: discriminant_of_def smaller_root_def larger_root_def quad_a_def
      quad_half_b_def quad_c_def scenario_ray_def vsub_def dsub_def dot_def
      length_squared_def)

theorem list_hit_is_nearest_witness:
  "tame scenario_ray sphere_behind \<and> tame scenario_ray unit_sphere
   \<and> (\<exists>rc' rcx. hit rec0 (HittableList [sphere_behind, unit_sphere]) scenario_ray (Fin 0) infinity
                    rec0 rng_half = (True, rc', rng_half)
         \<and> rec_t rc' = Fin 4
         \<and> hit rec0 sphere_behind scenario_ray (Fin 0) infinity rec0 rng_half
               = (True, rcx, rng_half)
         \<and> rec_t rcx = Fin 7 \<and> dle (rec_t rc') (rec_t rcx))
   \<and> fst (hit rec0 (HittableList [unit_sphere, sphere_behind]) scenario_ray (Fin 0) infinity
            rec0 rng_half)
     = fst (hit rec0 (HittableList [sphere_behind, unit_sphere]) scenario_ray (Fin 0) infinity
              rec0 rng_half)"
proof -
  have p: "tame scenario_ray sphere_behind" "tame scenario_ray unit_sphere"
    by (simp_all add: sphere_behind_def unit_sphere_def settled_def scenario_quadratic
        behind_quadratic)
  obtain a where a: "hit rec0 sphere_behind scenario_ray (Fin 0) infinity rec0 rng_half
      = (True, a, rng_half)" "rec_t a = Fin 7"
    using scenario_hit_mat[OF behind_roots(1)] unfolding sphere_behind_def by blast
  obtain b where b: "hit rec0 unit_sphere scenario_ray (Fin 0) (Fin 7) a rng_half
      = (True, b, rng_half)" "rec_t b = Fin 4"
    using scenario_hit_mat[OF behind_roots(2)] unfolding unit_sphere_def by blast
  have 1: "hit rec0 (HittableList [sphere_behind, unit_sphere]) scenario_ray (Fin 0) infinity
      rec0 rng_half = (True, b, rng_half)"
    using a b by (simp add: unit_sphere_def sphere_behind_def del: hit.simps(1))
  note T = list_hit_is_nearest[where r = scenario_ray and xs = "[sphere_behind, unit_sphere]"
      and t_max = infinity and dflt = rec0 and t_min = "Fin 0" and rc = rec0 and g = rng_half]
  have pre: "\<forall>x\<in>set [sphere_behind, unit_sphere]. tame scenario_ray x" using p by simp
  have nn: "infinity \<noteq> NaN" by (simp add: infinity_def)
  note T' = T[OF pre nn]
  from T' 1 a(1) have le: "dle (rec_t b) (rec_t a)"
    by (meson list.set_intros(1))
  have "mset [unit_sphere, sphere_behind] = mset [sphere_behind, unit_sphere]" by simp
  with T' have perm:
    "fst (hit rec0 (HittableList [unit_sphere, sphere_behind]) scenario_ray (Fin 0) infinity
            rec0 rng_half)
     = fst (hit rec0 (HittableList [sphere_behind, unit_sphere]) scenario_ray (Fin 0) infinity
              rec0 rng_half)"
    by blast
  from p 1 a b(2) le perm show ?thesis by blast
qed

end
